theory Spec2Isabelle
  imports Main "HOL-Library.List_Lexorder"
begin

section \<open>Python strings\<close>

text \<open>
  A Python \<^verbatim>\<open>str\<close> is a sequence of Unicode code points, and every string operation of
  \<^verbatim>\<open>backend/main.py\<close> (\<^verbatim>\<open>strip\<close>, \<^verbatim>\<open>in\<close>, \<^verbatim>\<open>split\<close>, \<^verbatim>\<open>removesuffix\<close>,
  \<^verbatim>\<open>endswith\<close>, comparison inside \<^verbatim>\<open>sorted\<close>) works on code points. The markers of the
  program are Chinese text, so a string is modelled as the list of its code points, written in
  hexadecimal. The order of \<^verbatim>\<open>HOL-Library.List_Lexorder\<close> on such lists is the
  order Python compares strings by: lexicographic on code points, a proper prefix first.
\<close>

type_synonym ustr = "nat list"

text \<open>
  \<^verbatim>\<open>str.isspace\<close> on one character: the 29 code points CPython treats as whitespace
  (\<^verbatim>\<open>_PyUnicode_IsWhitespace\<close>). \<^verbatim>\<open>str.strip()\<close> with no argument removes them at both ends.
\<close>

definition isspace :: "nat \<Rightarrow> bool" where
  "isspace c =
     ((0x9 \<le> c \<and> c \<le> 0xD) \<or> (0x1C \<le> c \<and> c \<le> 0x20) \<or> c = 0x85 \<or> c = 0xA0 \<or> c = 0x1680 \<or>
      (0x2000 \<le> c \<and> c \<le> 0x200A) \<or> c = 0x2028 \<or> c = 0x2029 \<or> c = 0x202F \<or> c = 0x205F \<or>
      c = 0x3000)"

definition lstrip :: "ustr \<Rightarrow> ustr" where
  "lstrip s = dropWhile isspace s"

definition rstrip :: "ustr \<Rightarrow> ustr" where
  "rstrip s = rev (dropWhile isspace (rev s))"

definition strip :: "ustr \<Rightarrow> ustr" where
  "strip s = rstrip (lstrip s)"

text \<open>\<^verbatim>\<open>s.endswith(suffix)\<close> and \<^verbatim>\<open>s.endswith((a, b, c))\<close> with a tuple of suffixes.\<close>

definition endswith :: "ustr \<Rightarrow> ustr \<Rightarrow> bool" where
  "endswith s suf = (length suf \<le> length s \<and> drop (length s - length suf) s = suf)"

definition endswith_any :: "ustr \<Rightarrow> ustr list \<Rightarrow> bool" where
  "endswith_any s sufs = list_ex (endswith s) sufs"

text \<open>
  \<^verbatim>\<open>s.removesuffix(suffix)\<close>: CPython returns \<^verbatim>\<open>s[:-len(suffix)]\<close> when the suffix is not
  empty and \<^verbatim>\<open>s\<close> ends with it, and \<^verbatim>\<open>s\<close> otherwise. At most one copy is removed.
\<close>

definition removesuffix :: "ustr \<Rightarrow> ustr \<Rightarrow> ustr" where
  "removesuffix s suf =
     (if suf \<noteq> [] \<and> endswith s suf then take (length s - length suf) s else s)"

text \<open>
  \<^verbatim>\<open>s.find(sub)\<close>: the index of the first occurrence of \<^verbatim>\<open>sub\<close> in \<^verbatim>\<open>s\<close>, scanning from
  the left; \<open>None\<close> stands for Python's \<^verbatim>\<open>-1\<close>. Both \<^verbatim>\<open>sub in s\<close> and
  \<^verbatim>\<open>s.split(sub, 1)\<close> are this search: the first tells whether there is an occurrence, the
  second cuts \<^verbatim>\<open>s\<close> around the first one and returns the one or two parts as a list.
\<close>

fun str_find :: "ustr \<Rightarrow> ustr \<Rightarrow> nat option" where
  "str_find sub [] = (if sub = [] then Some 0 else None)"
| "str_find sub (c # cs) =
     (if take (length sub) (c # cs) = sub then Some 0 else map_option Suc (str_find sub cs))"

definition str_contains :: "ustr \<Rightarrow> ustr \<Rightarrow> bool" where
  "str_contains sub s = (str_find sub s \<noteq> None)"

definition split_once :: "ustr \<Rightarrow> ustr \<Rightarrow> ustr list" where
  "split_once s sep =
     (case str_find sep s of
        None \<Rightarrow> [s]
      | Some i \<Rightarrow> [take i s, drop (i + length sep) s])"

text \<open>
  \<^verbatim>\<open>str(n)\<close> for a natural number, as the f-strings \<^verbatim>\<open>{idx}\<close> and \<^verbatim>\<open>{idx+1}\<close> format it:
  decimal digits, most significant first, no leading zero.
\<close>

function str_nat :: "nat \<Rightarrow> ustr" where
  "str_nat n = (if n < 10 then [0x30 + n] else str_nat (n div 10) @ [0x30 + n mod 10])"
  by pat_completeness auto
termination
  by (relation "measure id") auto

declare str_nat.simps [simp del]

text \<open>
  \<^verbatim>\<open>s.lower()\<close>, restricted to what the program uses it for. The only use is the test
  \<^verbatim>\<open>f.lower().endswith(('.png', '.jpg', '.jpeg'))\<close>, whose suffixes are ASCII. Python lowers
  other letters too, but no code point outside ASCII lower-cases into a string containing
  one of the characters \<^verbatim>\<open>. p n g j e\<close>, so the test sees the same last characters whether
  only the ASCII capitals are lowered or all of Unicode.
\<close>

definition lower_char :: "nat \<Rightarrow> nat" where
  "lower_char c = (if 0x41 \<le> c \<and> c \<le> 0x5A then c + 0x20 else c)"

definition str_lower :: "ustr \<Rightarrow> ustr" where
  "str_lower s = map lower_char s"

text \<open>
  \<^verbatim>\<open>os.path.join(a, b)\<close> on a POSIX system (\<^verbatim>\<open>posixpath.join\<close>): an absolute \<^verbatim>\<open>b\<close> replaces
  \<^verbatim>\<open>a\<close>; otherwise \<^verbatim>\<open>b\<close> is appended, after a slash unless \<^verbatim>\<open>a\<close> is empty or already
  ends with one.
\<close>

definition os_path_join :: "ustr \<Rightarrow> ustr \<Rightarrow> ustr" where
  "os_path_join a b =
     (if take 1 b = [0x2F] then b
      else if a = [] \<or> endswith a [0x2F] then a @ b
      else a @ [0x2F] @ b)"

section \<open>The string constants of the program\<close>

text \<open>
  Every literal of \<^verbatim>\<open>backend/main.py\<close> that reaches a descriptor, a document or a response,
  code point by code point. An f-string with placeholders is cut at the placeholders into
  its fixed pieces (\<open>_pre\<close>, \<open>_mid\<close>, \<open>_post\<close>).
\<close>

definition delimiter :: ustr where
  "delimiter = [0x529F, 0x80FD, 0x4EE3, 0x78BC, 0x3A]"

definition not_provided :: ustr where
  "not_provided = [0xFF08, 0x672A, 0x63D0, 0x4F9B, 0xFF09]"

definition MAIN_CHAPTER_NUMBER :: ustr where
  "MAIN_CHAPTER_NUMBER = [0x31]"

definition ascii_comma :: ustr where
  "ascii_comma = [0x2C]"

definition fullwidth_comma :: ustr where
  "fullwidth_comma = [0xFF0C]"

definition default_base_number :: ustr where
  "default_base_number = [0x3F]"

definition default_title :: ustr where
  "default_title = [0x672A, 0x547D, 0x540D, 0x6A19, 0x984C]"

definition default_folder :: ustr where
  "default_folder = [0x672A, 0x77E5, 0x8CC7, 0x6599, 0x593E]"

definition folder_warning_pre :: ustr where
  "folder_warning_pre = [0x8B66, 0x544A, 0xFF1A, 0x627E, 0x4E0D, 0x5230, 0x8207, 0x20]"

definition folder_warning_post :: ustr where
  "folder_warning_post = [0x20, 0x5C0D, 0x61C9, 0x7684, 0x5716, 0x7247, 0x8CC7, 0x6599, 0x593E, 0x3002]"

definition picture_error_pre :: ustr where
  "picture_error_pre = [0xFF08, 0x8B66, 0x544A, 0xFF1A, 0x8655, 0x7406, 0x7B2C, 0x20]"

definition picture_error_mid :: ustr where
  "picture_error_mid = [0x20, 0x5F35, 0x5716, 0x7247, 0x6642, 0x767C, 0x751F, 0x932F, 0x8AA4, 0x3A, 0x20]"

definition picture_error_post :: ustr where
  "picture_error_post = [0xFF09]"

definition picture_missing_pre :: ustr where
  "picture_missing_pre = [0xFF08, 0x8B66, 0x544A, 0xFF1A, 0x6B64, 0x8655, 0x7F3A, 0x5C11, 0x7B2C, 0x20]"

definition picture_missing_post :: ustr where
  "picture_missing_post = [0x20, 0x5F35, 0x5716, 0x7247, 0xFF09]"

definition heading_mid :: ustr where
  "heading_mid = [0xFF0C, 0x529F, 0x80FD, 0x4EE3, 0x78BC, 0x3A]"

definition intro_pre :: ustr where
  "intro_pre = [0x5728, 0x5DE6, 0x5074, 0x7684, 0x529F, 0x80FD, 0x9078, 0x55AE, 0x4E2D, 0xFF0C,
      0x9EDE, 0x9078, 0x300C, 0x958B, 0x95DC, 0x5E33, 0x53CA, 0x54, 0x4D, 0x50, 0x8CC7,
      0x6599, 0x67E5, 0x8A62, 0x653E, 0x884C, 0x300D, 0xFF0C, 0x63A5, 0x8457, 0x9EDE,
      0x9078, 0x300C, 0x49, 0x46, 0x52, 0x53, 0x31, 0x35, 0x67E5, 0x8A62, 0x53CA, 0x653E,
      0x884C, 0x300D, 0xFF0C, 0x6700, 0x5F8C, 0x518D, 0x9EDE, 0x9078, 0x300C]"

definition intro_post :: ustr where
  "intro_post = [0x300D, 0xFF0C, 0x5373, 0x53EF, 0x958B, 0x555F, 0x8996, 0x7A97, 0x3002]"

definition txt_query :: ustr where
  "txt_query = [0x67E5, 0x8A62, 0x529F, 0x80FD]"

definition txt_query_all :: ustr where
  "txt_query_all = [0x67E5, 0x8A62, 0x6240, 0x6709, 0x8CC7, 0x6599]"

definition txt_query_all_how :: ustr where
  "txt_query_all_how = [0x4E0D, 0x8F38, 0x5165, 0x67E5, 0x8A62, 0x689D, 0x4EF6, 0xFF0C, 0x76F4, 0x63A5,
      0x9EDE, 0x64CA, 0x67E5, 0x8A62, 0x6309, 0x9215, 0x5373, 0x53EF, 0x67E5, 0x8A62,
      0x6240, 0x6709, 0x8CC7, 0x6599, 0x3002]"

definition txt_query_specific :: ustr where
  "txt_query_specific = [0x67E5, 0x8A62, 0x7279, 0x5B9A, 0x8CC7, 0x6599]"

definition query_condition_pre :: ustr where
  "query_condition_pre = [0x67E5, 0x8A62, 0x689D, 0x4EF6, 0x70BA, 0xFF1A]"

definition txt_query_specific_how :: ustr where
  "txt_query_specific_how = [0x5148, 0x8F38, 0x5165, 0x67E5, 0x8A62, 0x689D, 0x4EF6, 0xFF0C, 0x518D, 0x9EDE,
      0x64CA, 0x67E5, 0x8A62, 0x6309, 0x9215, 0x5373, 0x53EF, 0x67E5, 0x8A62, 0x7279,
      0x5B9A, 0x8CC7, 0x6599, 0x3002]"

definition txt_query_result :: ustr where
  "txt_query_result = [0x67E5, 0x8A62, 0x7D50, 0x679C]"

definition txt_approve :: ustr where
  "txt_approve = [0x6838, 0x53EF, 0x529F, 0x80FD]"

definition txt_approve_how :: ustr where
  "txt_approve_how = [0x82E5, 0x8981, 0x57F7, 0x884C, 0x6838, 0x53EF, 0x529F, 0x80FD, 0xFF0C, 0x9700,
      0x5148, 0x9EDE, 0x64CA, 0x67E5, 0x8A62, 0xFF0C, 0x78BA, 0x8A8D, 0x6709, 0x8CC7,
      0x6599, 0x4E14, 0x8CC7, 0x6599, 0x7121, 0x8AA4, 0x5F8C, 0x518D, 0x9EDE, 0x64CA,
      0x6838, 0x53EF, 0x6309, 0x9215, 0x3002]"

definition txt_approve_with_data :: ustr where
  "txt_approve_with_data = [0x5DF2, 0x67E5, 0x8A62, 0x4E14, 0x6709, 0x8CC7, 0x6599, 0xFF0C, 0x9EDE, 0x64CA,
      0x6838, 0x53EF, 0x6309, 0x9215]"

definition txt_confirm_dialog :: ustr where
  "txt_confirm_dialog = [0x8DF3, 0x51FA, 0x78BA, 0x8A8D, 0x8A0A, 0x606F, 0x3002]"

definition txt_approved :: ustr where
  "txt_approved = [0x9EDE, 0x64CA, 0x78BA, 0x8A8D, 0xFF0C, 0x5B8C, 0x6210, 0x6838, 0x53EF, 0x5F8C,
      0x986F, 0x793A, 0x6838, 0x53EF, 0x8005, 0x3001, 0x6838, 0x53EF, 0x6642, 0x9593]"

definition txt_approve_without_data :: ustr where
  "txt_approve_without_data = [0x672A, 0x67E5, 0x8A62, 0x6216, 0x7121, 0x8CC7, 0x6599, 0xFF0C, 0x9EDE, 0x64CA,
      0x6838, 0x53EF, 0x6309, 0x9215]"

definition txt_approve_without_data_how :: ustr where
  "txt_approve_without_data_how = [0x82E5, 0x672A, 0x67E5, 0x8A62, 0x6216, 0x7121, 0x8CC7, 0x6599, 0x5C31, 0x76F4,
      0x63A5, 0x9EDE, 0x64CA, 0x6838, 0x53EF, 0x6309, 0x9215, 0xFF0C, 0x5C07, 0x6703,
      0x8DF3, 0x51FA, 0x8B66, 0x544A, 0x3002]"

definition txt_return :: ustr where
  "txt_return = [0x9000, 0x56DE]"

definition txt_return_how :: ustr where
  "txt_return_how = [0x82E5, 0x5DF2, 0x5B8C, 0x6210, 0x6838, 0x53EF, 0x8981, 0x57F7, 0x884C, 0x9000,
      0x56DE, 0x529F, 0x80FD, 0xFF0C, 0x53EF, 0x76F4, 0x63A5, 0x9EDE, 0x64CA, 0x9000,
      0x56DE, 0x6309, 0x9215, 0x3002]"

definition txt_returned :: ustr where
  "txt_returned = [0x9EDE, 0x64CA, 0x78BA, 0x8A8D, 0xFF0C, 0x9000, 0x56DE, 0x5F8C, 0x4E0D, 0x518D,
      0x986F, 0x793A, 0x6838, 0x53EF, 0x8005, 0x3001, 0x6838, 0x53EF, 0x6642, 0x9593]"

definition msg_no_rows :: ustr where
  "msg_no_rows = [0x45, 0x78, 0x63, 0x65, 0x6C, 0x20, 0x6C92, 0x6709, 0x6709, 0x6548, 0x8CC7, 0x6599,
      0x5217]"

definition msg_done :: ustr where
  "msg_done = [0x8655, 0x7406, 0x5B8C, 0x6210, 0xFF01]"

definition processed_prefix :: ustr where
  "processed_prefix = [0x70, 0x72, 0x6F, 0x63, 0x65, 0x73, 0x73, 0x65, 0x64, 0x5F]"

definition ext_png :: ustr where
  "ext_png = [0x2E, 0x70, 0x6E, 0x67]"

definition ext_jpg :: ustr where
  "ext_jpg = [0x2E, 0x6A, 0x70, 0x67]"

definition ext_jpeg :: ustr where
  "ext_jpeg = [0x2E, 0x6A, 0x70, 0x65, 0x67]"

definition str_None :: ustr where
  "str_None = [0x4E, 0x6F, 0x6E, 0x65]"

section \<open>The configuration parser\<close>

text \<open>
  Modelled from the spec: the spreadsheet reader (\<^verbatim>\<open>openpyxl\<close>, not part of the
  repository) yields, for the first sheet from row 2 on and for columns A and B, "raw
  cell values (string or empty)". A cell is therefore \<open>None\<close> (an empty or absent cell,
  Python's \<^verbatim>\<open>None\<close>) or \<open>Some s\<close> (a string cell, possibly the empty string), and
  \<^verbatim>\<open>iter_rows(min_row=2, max_col=2, values_only=True)\<close> is the list of the pairs
  \<open>(col_a, col_b)\<close> of the data rows, top to bottom. Cells of another kind (numbers,
  dates), which \<^verbatim>\<open>str\<close> would format, are not part of that interface and not of this
  model.
\<close>

type_synonym cell = "ustr option"

text \<open>Python's truth value of a cell (\<^verbatim>\<open>if not col_a\<close>, \<^verbatim>\<open>if col_b\<close>) and \<^verbatim>\<open>str(cell)\<close>.\<close>

definition truthy :: "cell \<Rightarrow> bool" where
  "truthy c = (case c of None \<Rightarrow> False | Some s \<Rightarrow> s \<noteq> [])"

definition py_str :: "cell \<Rightarrow> ustr" where
  "py_str c = (case c of None \<Rightarrow> str_None | Some s \<Rightarrow> s)"

text \<open>
  A section descriptor is the dict the parser builds, with string keys in insertion order:
  an association list. \<open>dict_get\<close> is \<^verbatim>\<open>d.get(key, default)\<close>.
\<close>

type_synonym section_info = "(string \<times> ustr) list"

definition dict_get :: "section_info \<Rightarrow> string \<Rightarrow> ustr \<Rightarrow> ustr" where
  "dict_get d k dflt = (case map_of d k of None \<Rightarrow> dflt | Some v \<Rightarrow> v)"

text \<open>
  The body of the loop of \<^verbatim>\<open>parse_excel_config\<close> below its \<^verbatim>\<open>continue\<close>: the dict appended
  for the row numbered \<open>idx\<close> with cells \<open>col_a\<close>, \<open>col_b\<close>. In the branch that reads
  \<open>parts ! 1\<close> the marker occurs in \<open>title_raw\<close>, so \<open>parts\<close> has two elements
  (lemma \<open>split_once_found\<close>).
\<close>

definition row_section :: "nat \<Rightarrow> cell \<Rightarrow> cell \<Rightarrow> section_info" where
  "row_section idx col_a col_b =
     (let title_raw = strip (py_str col_a);
          query_var = (if truthy col_b then strip (py_str col_b) else not_provided);
          folder_id = [];
          (title, folder_id) =
            (if str_contains delimiter title_raw then
               (let parts = split_once title_raw delimiter
                in (strip (removesuffix (removesuffix (strip (parts ! 0)) ascii_comma)
                             fullwidth_comma),
                    strip (parts ! 1)))
             else (title_raw, folder_id))
      in [(''folder'', folder_id),
          (''title'', title),
          (''query_condition'', query_var),
          (''base_number'', MAIN_CHAPTER_NUMBER @ [0x2E] @ str_nat idx)])"

text \<open>
  The loop \<^verbatim>\<open>for idx, (col_a, col_b) in enumerate(rows, 1)\<close>: \<open>idx\<close> counts every row
  visited, \<open>sections\<close> is the list built so far. A row whose column A is falsy is skipped
  by \<^verbatim>\<open>continue\<close>; the counter has advanced all the same.
\<close>

fun parse_rows :: "nat \<Rightarrow> (cell \<times> cell) list \<Rightarrow> section_info list \<Rightarrow> section_info list" where
  "parse_rows idx [] sections = sections"
| "parse_rows idx ((col_a, col_b) # rows) sections =
     (if \<not> truthy col_a then parse_rows (idx + 1) rows sections
      else parse_rows (idx + 1) rows (sections @ [row_section idx col_a col_b]))"

definition parse_excel_config :: "(cell \<times> cell) list \<Rightarrow> section_info list" where
  "parse_excel_config rows = parse_rows 1 rows []"

text \<open>
  The descriptor emitted for the row \<open>(col_a, col_b)\<close> that stands after the rows
  \<open>pre\<close> and before the rows \<open>post\<close>: its place in the output is the number of
  descriptors the rows above it produce.
\<close>

definition descriptor_of ::
  "(cell \<times> cell) list \<Rightarrow> cell \<Rightarrow> cell \<Rightarrow> (cell \<times> cell) list \<Rightarrow> section_info" where
  "descriptor_of pre col_a col_b post =
     parse_excel_config (pre @ (col_a, col_b) # post) ! length (parse_excel_config pre)"

text \<open>
  The 1-based numbers, counted over all data rows, of the rows whose column A is truthy:
  the values \<open>idx\<close> of \<^verbatim>\<open>enumerate(rows, 1)\<close> at which a descriptor is appended.
\<close>

definition emitted_row_numbers :: "(cell \<times> cell) list \<Rightarrow> nat list" where
  "emitted_row_numbers rows =
     map fst (filter (\<lambda>(n, col_a, col_b). truthy col_a) (enumerate 1 rows))"

section \<open>The document and the section assembler\<close>

text \<open>
  Modelled from the spec: the document store (\<^verbatim>\<open>python-docx\<close>, not part of the
  repository) is "an ordered sequence of content blocks (paragraphs, headings, images, page
  breaks)" with the capabilities append a page break, a heading, a paragraph, an image, and
  a settable alignment per block. Every block the program appends is a paragraph of the
  body, so a document is the list of its paragraphs, each with its content and its
  alignment (\<open>None\<close> until one is set). The fonts that \<^verbatim>\<open>set_font_for_run\<close> writes on the
  runs of a new paragraph are not tracked: no block is told apart by them.
\<close>

datatype alignment = CENTER

datatype content =
    PageBreak
  | Heading ustr nat
  | Text ustr
  | Picture ustr int

datatype para = Para (content: content) (alignment: "alignment option")

type_synonym document = "para list"

definition add_page_break :: "document \<Rightarrow> document" where
  "add_page_break doc = doc @ [Para PageBreak None]"

definition add_paragraph_with_font :: "document \<Rightarrow> ustr \<Rightarrow> document" where
  "add_paragraph_with_font doc txt = doc @ [Para (Text txt) None]"

definition add_heading_with_font :: "document \<Rightarrow> ustr \<Rightarrow> nat \<Rightarrow> document" where
  "add_heading_with_font doc txt level = doc @ [Para (Heading txt level) None]"

text \<open>
  \<^verbatim>\<open>doc.paragraphs[-1].alignment = a\<close>, and \<^verbatim>\<open>p.alignment = a\<close> for the paragraph \<^verbatim>\<open>p\<close> that
  the call just before returned, which is the last one: the alignment of the last paragraph
  is overwritten, nothing else. The program only does this right after appending, so the
  document is never empty there (on an empty one Python would raise, the model leaves it).
\<close>

definition set_last_alignment :: "alignment \<Rightarrow> document \<Rightarrow> document" where
  "set_last_alignment a doc =
     (if doc = [] then doc else butlast doc @ [Para (content (last doc)) (Some a)])"

text \<open>
  \<^verbatim>\<open>Cm(uniform_width_cm)\<close> with \<^verbatim>\<open>uniform_width_cm = 17.98\<close>: a length of \<^verbatim>\<open>python-docx\<close> is
  an integer count of English Metric Units, 360000 to the centimetre, so the width every
  picture is given is \<^verbatim>\<open>int(17.98 * 360000) = 6472800\<close>.
\<close>

definition uniform_width :: int where
  "uniform_width = 6472800"

text \<open>
  What the assembler reads from outside, as functions of the path:
  \<^item> \<open>listdir\<close> is \<^verbatim>\<open>os.listdir(path)\<close>: the names in the directory, or \<open>None\<close> when it
    raises \<^verbatim>\<open>FileNotFoundError\<close>, the one failure the program handles;
  \<^item> \<open>add_picture_error\<close> tells whether the image file at a path can be inserted:
    \<open>None\<close> when it can, \<open>Some e\<close> when reading it raises an exception whose text
    \<^verbatim>\<open>str(e)\<close> is \<open>e\<close>;
  \<^item> \<open>section_dir\<close> is \<^verbatim>\<open>str(img_root / folder)\<close>: the path of the directory of a folder
    identifier below the root of the extracted archive (\<^verbatim>\<open>pathlib\<close>).
  Failures the program does not handle (another \<^verbatim>\<open>OSError\<close> of \<^verbatim>\<open>os.listdir\<close>, a document
  that cannot be written to) pass through it unchanged and are outside this model.
\<close>

record env =
  listdir :: "ustr \<Rightarrow> ustr list option"
  add_picture_error :: "ustr \<Rightarrow> ustr option"
  section_dir :: "ustr \<Rightarrow> ustr"

text \<open>
  \<^verbatim>\<open>doc.add_picture(path, width=width)\<close>. The library runs
  \<^verbatim>\<open>self.add_paragraph().add_run().add_picture(path, width)\<close>: it appends a new, empty
  paragraph first and reads the image file after that. When the file cannot be read the
  call raises, and the empty paragraph it has appended stays in the document. The result
  is the document with the picture paragraph (\<open>Inr\<close>), or the text of the exception
  together with the document as the failed call leaves it (\<open>Inl\<close>).
\<close>

definition add_picture :: "env \<Rightarrow> document \<Rightarrow> ustr \<Rightarrow> int \<Rightarrow> (ustr \<times> document) + document" where
  "add_picture env doc path width =
     (case add_picture_error env path of
        None \<Rightarrow> Inr (doc @ [Para (Picture path width) None])
      | Some e \<Rightarrow> Inl (e, doc @ [Para (Text []) None]))"

text \<open>
  The body of the \<^verbatim>\<open>try\<close> of \<^verbatim>\<open>append_section\<close>: the image files of the folder, as full
  paths in ascending order; \<open>None\<close> when \<^verbatim>\<open>os.listdir\<close> raises \<^verbatim>\<open>FileNotFoundError\<close>.
\<close>

definition list_images :: "env \<Rightarrow> ustr \<Rightarrow> ustr list option" where
  "list_images env image_folder =
     map_option
       (\<lambda>names. sort (map (os_path_join image_folder)
                  (filter (\<lambda>f. endswith_any (str_lower f) [ext_png, ext_jpg, ext_jpeg]) names)))
       (listdir env image_folder)"

text \<open>
  The nested function \<^verbatim>\<open>add_picture_with_uniform_width(idx)\<close>; the document and the image
  list it closes over are parameters. The \<^verbatim>\<open>except\<close> branch works on the document as the
  failed \<^verbatim>\<open>doc.add_picture\<close> left it.
\<close>

definition add_picture_with_uniform_width ::
  "env \<Rightarrow> ustr list \<Rightarrow> document \<Rightarrow> nat \<Rightarrow> document" where
  "add_picture_with_uniform_width env images doc idx =
     (if idx < length images then
        (case add_picture env doc (images ! idx) uniform_width of
           Inr doc' \<Rightarrow> set_last_alignment CENTER doc'
         | Inl (e, doc') \<Rightarrow>
             set_last_alignment CENTER
               (add_paragraph_with_font doc'
                  (picture_error_pre @ str_nat (idx + 1) @ picture_error_mid @ e @
                   picture_error_post)))
      else
        set_last_alignment CENTER
          (add_paragraph_with_font doc
             (picture_missing_pre @ str_nat (idx + 1) @ picture_missing_post)))"

text \<open>
  \<^verbatim>\<open>append_section(doc, section_info, image_folder)\<close>, statement by statement; each \<open>doc\<close>
  is the document after the statement on its line.
\<close>

definition append_section :: "env \<Rightarrow> document \<Rightarrow> section_info \<Rightarrow> ustr \<Rightarrow> document" where
  "append_section env doc section_info image_folder =
     (let base_number = dict_get section_info ''base_number'' default_base_number;
          section_title = dict_get section_info ''title'' default_title;
          section_folder_name = dict_get section_info ''folder'' default_folder;
          query_condition = dict_get section_info ''query_condition'' not_provided;
          (doc, images) =
            (case list_images env image_folder of
               Some images \<Rightarrow> (doc, images)
             | None \<Rightarrow>
                 (add_paragraph_with_font doc
                    (folder_warning_pre @ section_folder_name @ folder_warning_post), []));
          doc = add_page_break doc;
          doc = add_heading_with_font doc (section_title @ heading_mid @ section_folder_name) 2;
          doc = add_paragraph_with_font doc (intro_pre @ section_title @ intro_post);
          doc = add_picture_with_uniform_width env images doc 0;
          doc = add_heading_with_font doc txt_query 3;
          doc = add_heading_with_font doc txt_query_all 4;
          doc = add_paragraph_with_font doc txt_query_all_how;
          doc = add_picture_with_uniform_width env images doc 1;
          doc = add_heading_with_font doc txt_query_specific 4;
          doc = add_paragraph_with_font doc (query_condition_pre @ query_condition);
          doc = add_paragraph_with_font doc txt_query_specific_how;
          doc = add_picture_with_uniform_width env images doc 2;
          doc = add_page_break doc;
          doc = add_heading_with_font doc txt_query_result 4;
          doc = add_picture_with_uniform_width env images doc 3;
          doc = add_heading_with_font doc txt_approve 3;
          doc = add_paragraph_with_font doc txt_approve_how;
          doc = add_heading_with_font doc txt_approve_with_data 4;
          doc = add_picture_with_uniform_width env images doc 4;
          doc = add_page_break doc;
          doc = add_paragraph_with_font doc txt_confirm_dialog;
          doc = add_picture_with_uniform_width env images doc 5;
          doc = add_paragraph_with_font doc txt_approved;
          doc = add_picture_with_uniform_width env images doc 6;
          doc = add_page_break doc;
          doc = add_heading_with_font doc txt_approve_without_data 4;
          doc = add_paragraph_with_font doc txt_approve_without_data_how;
          doc = add_picture_with_uniform_width env images doc 7;
          doc = add_heading_with_font doc txt_return 3;
          doc = add_paragraph_with_font doc txt_return_how;
          doc = add_picture_with_uniform_width env images doc 8;
          doc = add_page_break doc;
          doc = add_paragraph_with_font doc txt_confirm_dialog;
          doc = add_picture_with_uniform_width env images doc 9;
          doc = add_paragraph_with_font doc txt_returned;
          doc = add_picture_with_uniform_width env images doc 10
      in doc)"

section \<open>The request handler\<close>

text \<open>
  An exception that leaves \<^verbatim>\<open>upload_and_process\<close>: the \<^verbatim>\<open>HTTPException\<close> it raises, with
  status code and detail, or the \<^verbatim>\<open>KeyError\<close> of \<^verbatim>\<open>s['folder']\<close> on a dict without that key.
\<close>

datatype error = HTTPException nat ustr | KeyError string

text \<open>
  The loop \<^verbatim>\<open>for s in sections: append_section(doc, s, str(img_root / s['folder']))\<close> over
  the one shared document.
\<close>

fun process_sections :: "env \<Rightarrow> document \<Rightarrow> section_info list \<Rightarrow> error + document" where
  "process_sections env doc [] = Inr doc"
| "process_sections env doc (s # sections) =
     (case map_of s ''folder'' of
        None \<Rightarrow> Inl (KeyError ''folder'')
      | Some folder \<Rightarrow>
          process_sections env (append_section env doc s (section_dir env folder)) sections)"

text \<open>
  What one request uploads, as the handler reads it back: the file name of the template,
  the document \<^verbatim>\<open>Document(main_path)\<close> opens from it, and the data rows of the spreadsheet.
  The image archive is the \<open>env\<close> (the directories below its extracted root); \<open>sid\<close> is
  the fresh \<^verbatim>\<open>uuid4\<close> directory name. The result is the exception raised, or the document
  handed to \<^verbatim>\<open>doc.save\<close> together with the dict returned to the client.
\<close>

record upload =
  main_docx_filename :: ustr
  main_docx :: document
  config_rows :: "(cell \<times> cell) list"

definition upload_and_process ::
  "env \<Rightarrow> ustr \<Rightarrow> upload \<Rightarrow> error + (document \<times> (string \<times> ustr) list)" where
  "upload_and_process env sid up =
     (let sections = parse_excel_config (config_rows up)
      in if sections = [] then Inl (HTTPException 400 msg_no_rows)
         else
           (case process_sections env (main_docx up) sections of
              Inl e \<Rightarrow> Inl e
            | Inr doc \<Rightarrow>
                (let out_name = processed_prefix @ main_docx_filename up
                 in Inr (doc,
                      [(''message'', msg_done),
                       (''output_filename'', out_name),
                       (''download_filename'', sid @ [0x2F] @ out_name)]))))"

section \<open>Notions the claims are stated with\<close>

text \<open>
  The ImageSet the assembler works with: the listed images, or none when the folder is
  missing (\<^verbatim>\<open>images = []\<close> in the \<^verbatim>\<open>except\<close> branch).
\<close>

definition section_images :: "env \<Rightarrow> ustr \<Rightarrow> ustr list" where
  "section_images env image_folder =
     (case list_images env image_folder of None \<Rightarrow> [] | Some images \<Rightarrow> images)"

text \<open>
  The texts of the three warnings: the folder is missing, slot number \<open>n\<close> has no image,
  the image of slot number \<open>n\<close> failed with the error text \<open>e\<close>.
\<close>

definition folder_warning :: "ustr \<Rightarrow> ustr" where
  "folder_warning name = folder_warning_pre @ name @ folder_warning_post"

definition picture_missing :: "nat \<Rightarrow> ustr" where
  "picture_missing n = picture_missing_pre @ str_nat n @ picture_missing_post"

definition picture_error :: "nat \<Rightarrow> ustr \<Rightarrow> ustr" where
  "picture_error n e = picture_error_pre @ str_nat n @ picture_error_mid @ e @ picture_error_post"

text \<open>
  What one call \<^verbatim>\<open>add_picture_with_uniform_width(idx)\<close> leaves at the end of the document
  (lemma \<open>add_picture_with_uniform_width_appends\<close>): the empty paragraph of a failed
  insertion, if the slot has an image and inserting it fails, and then the one
  center-aligned paragraph of the slot.
\<close>

definition stray_paragraphs :: "env \<Rightarrow> ustr list \<Rightarrow> nat \<Rightarrow> para list" where
  "stray_paragraphs env images idx =
     (if idx < length images \<and> add_picture_error env (images ! idx) \<noteq> None
      then [Para (Text []) None] else [])"

definition slot_block :: "env \<Rightarrow> ustr list \<Rightarrow> nat \<Rightarrow> para" where
  "slot_block env images idx =
     (if idx < length images then
        (case add_picture_error env (images ! idx) of
           None \<Rightarrow> Para (Picture (images ! idx) uniform_width) (Some CENTER)
         | Some e \<Rightarrow> Para (Text (picture_error (idx + 1) e)) (Some CENTER))
      else Para (Text (picture_missing (idx + 1))) (Some CENTER))"

text \<open>
  The paragraph a slot shows is told by its alignment: the assembler centers the last
  paragraph each call of \<^verbatim>\<open>add_picture_with_uniform_width\<close> appends and sets no other
  alignment.
\<close>

definition centered :: "para \<Rightarrow> bool" where
  "centered p = (alignment p = Some CENTER)"

text \<open>The slot contributions among the paragraphs a call appended to \<open>doc\<close>.\<close>

definition appended_slots :: "document \<Rightarrow> document \<Rightarrow> para list" where
  "appended_slots doc doc' = filter centered (drop (length doc) doc')"

text \<open>
  The fixed skeleton of a section as data: for each of the eleven slots, in order, the
  headings, paragraphs and page breaks that \<^verbatim>\<open>append_section\<close> appends between the slot
  before it and the slot itself. They depend on the descriptor only.
\<close>

definition skeleton :: "section_info \<Rightarrow> para list list" where
  "skeleton si =
     (let section_title = dict_get si ''title'' default_title;
          section_folder_name = dict_get si ''folder'' default_folder;
          query_condition = dict_get si ''query_condition'' not_provided
      in [[Para PageBreak None,
           Para (Heading (section_title @ heading_mid @ section_folder_name) 2) None,
           Para (Text (intro_pre @ section_title @ intro_post)) None],
          [Para (Heading txt_query 3) None,
           Para (Heading txt_query_all 4) None,
           Para (Text txt_query_all_how) None],
          [Para (Heading txt_query_specific 4) None,
           Para (Text (query_condition_pre @ query_condition)) None,
           Para (Text txt_query_specific_how) None],
          [Para PageBreak None,
           Para (Heading txt_query_result 4) None],
          [Para (Heading txt_approve 3) None,
           Para (Text txt_approve_how) None,
           Para (Heading txt_approve_with_data 4) None],
          [Para PageBreak None,
           Para (Text txt_confirm_dialog) None],
          [Para (Text txt_approved) None],
          [Para PageBreak None,
           Para (Heading txt_approve_without_data 4) None,
           Para (Text txt_approve_without_data_how) None],
          [Para (Heading txt_return 3) None,
           Para (Text txt_return_how) None],
          [Para PageBreak None,
           Para (Text txt_confirm_dialog) None],
          [Para (Text txt_returned) None]])"

text \<open>
  The comma removal of the title, said in two ways. \<open>one_trailing_comma_stripped\<close> is
  the wording "a trailing ASCII or full-width comma stripped": one comma of either form
  goes, if the text ends with one. \<open>trailing_commas_removed\<close> is what the two
  \<^verbatim>\<open>removesuffix\<close> calls of the parser amount to: the two-character ending full-width comma,
  ASCII comma goes whole; otherwise one ending comma of either form goes.
\<close>

definition one_trailing_comma_stripped :: "ustr \<Rightarrow> ustr" where
  "one_trailing_comma_stripped x =
     (if endswith x ascii_comma \<or> endswith x fullwidth_comma then butlast x else x)"

definition trailing_commas_removed :: "ustr \<Rightarrow> ustr" where
  "trailing_commas_removed x =
     (if endswith x (fullwidth_comma @ ascii_comma) then take (length x - 2) x
      else if endswith x ascii_comma \<or> endswith x fullwidth_comma then butlast x
      else x)"

text \<open>Whether a paragraph holds a picture.\<close>

definition is_picture :: "para \<Rightarrow> bool" where
  "is_picture p = (case content p of Picture path width \<Rightarrow> True | _ \<Rightarrow> False)"

section \<open>Example folders\<close>

text \<open>
  Three environments the theorems are run on. In \<open>mixed_env\<close> every folder lists the
  files \<^verbatim>\<open>b.PNG\<close>, \<^verbatim>\<open>a.png\<close> and \<^verbatim>\<open>notes.txt\<close>, and inserting \<^verbatim>\<open>d/b.PNG\<close> fails with the
  error text \<^verbatim>\<open>bad\<close>. In \<open>corrupt_env\<close> every folder lists the one file \<^verbatim>\<open>a.png\<close> and
  every insertion fails with \<^verbatim>\<open>bad\<close>. In \<open>missing_env\<close> no folder exists.
\<close>

definition mixed_env :: env where
  "mixed_env =
     \<lparr>listdir = \<lambda>p. Some [[0x62, 0x2E, 0x50, 0x4E, 0x47], [0x61, 0x2E, 0x70, 0x6E, 0x67],
                          [0x6E, 0x6F, 0x74, 0x65, 0x73, 0x2E, 0x74, 0x78, 0x74]],
      add_picture_error =
        \<lambda>p. if p = [0x64, 0x2F, 0x62, 0x2E, 0x50, 0x4E, 0x47] then Some [0x62, 0x61, 0x64] else None,
      section_dir = \<lambda>folder. folder\<rparr>"

definition corrupt_env :: env where
  "corrupt_env =
     \<lparr>listdir = \<lambda>p. Some [[0x61, 0x2E, 0x70, 0x6E, 0x67]],
      add_picture_error = \<lambda>p. Some [0x62, 0x61, 0x64],
      section_dir = \<lambda>folder. folder\<rparr>"

definition missing_env :: env where
  "missing_env =
     \<lparr>listdir = \<lambda>p. None, add_picture_error = \<lambda>p. None, section_dir = \<lambda>folder. folder\<rparr>"

section \<open>Facts about the string operations\<close>

lemma str_find_take: "str_find sub s = Some i \<Longrightarrow> take (length sub) (drop i s) = sub"
proof (induction s arbitrary: i)
  case Nil
  then show ?case by (simp split: if_splits)
next
  case (Cons c cs)
  then show ?case by (auto split: if_splits)
qed

lemma str_find_bound: "str_find sub s = Some i \<Longrightarrow> i + length sub \<le> length s"
proof (induction s arbitrary: i)
  case Nil
  then show ?case by (simp split: if_splits)
next
  case (Cons c cs)
  show ?case
  proof (cases "take (length sub) (c # cs) = sub")
    case True
    have "length (take (length sub) (c # cs)) = length sub"
      by (simp only: True)
    then have "length sub \<le> length (c # cs)"
      by simp
    with True Cons.prems show ?thesis by simp
  next
    case False
    with Cons.prems obtain j where "str_find sub cs = Some j" and "i = Suc j" by auto
    with Cons.IH show ?thesis by simp
  qed
qed

lemma str_find_split:
  assumes "str_find sub s = Some i"
  shows "s = take i s @ sub @ drop (i + length sub) s"
proof -
  have "drop i s = take (length sub) (drop i s) @ drop (length sub) (drop i s)"
    by (rule append_take_drop_id [symmetric])
  then have "drop i s = sub @ drop (i + length sub) s"
    using str_find_take [OF assms] by (simp add: add.commute)
  then show ?thesis
    by (metis append_take_drop_id)
qed

text \<open>No occurrence starts before the one \<open>str_find\<close> returns.\<close>

lemma str_find_first:
  "str_find sub s = Some i \<Longrightarrow> j < i \<Longrightarrow> take (length sub) (drop j s) \<noteq> sub"
proof (induction s arbitrary: i j)
  case Nil
  then show ?case by (simp split: if_splits)
next
  case (Cons c cs)
  from Cons.prems have ne: "take (length sub) (c # cs) \<noteq> sub"
    by (auto split: if_splits)
  with Cons.prems obtain k where k: "str_find sub cs = Some k" "i = Suc k" by auto
  show ?case
  proof (cases j)
    case 0
    with ne show ?thesis by simp
  next
    case (Suc j')
    with Cons.prems k have "j' < k" by simp
    with Cons.IH k Suc show ?thesis by simp
  qed
qed

lemma str_find_None: "str_find sub s = None \<Longrightarrow> s \<noteq> pre @ sub @ post"
proof (induction s arbitrary: pre)
  case Nil
  then show ?case by (auto split: if_splits)
next
  case (Cons c cs)
  from Cons.prems have ne: "take (length sub) (c # cs) \<noteq> sub" and rest: "str_find sub cs = None"
    by (auto split: if_splits)
  show ?case
  proof (cases pre)
    case Nil
    with ne show ?thesis by auto
  next
    case (Cons p ps)
    with Cons.IH [OF rest, of ps] show ?thesis by auto
  qed
qed

lemma split_once_found:
  "str_contains sep s \<Longrightarrow>
     \<exists>i. str_find sep s = Some i \<and> split_once s sep = [take i s, drop (i + length sep) s]"
  by (auto simp: str_contains_def split_once_def)

section \<open>Facts about the parser loop\<close>

lemma parse_rows_acc: "parse_rows idx rows acc = acc @ parse_rows idx rows []"
proof (induction rows arbitrary: idx acc)
  case Nil
  show ?case by simp
next
  case (Cons r rows)
  obtain a b where r: "r = (a, b)" by (cases r)
  show ?case
  proof (cases "truthy a")
    case True
    have "parse_rows idx (r # rows) acc = parse_rows (idx + 1) rows (acc @ [row_section idx a b])"
      using True r by simp
    also have "\<dots> = (acc @ [row_section idx a b]) @ parse_rows (idx + 1) rows []"
      by (rule Cons.IH)
    also have "\<dots> = acc @ parse_rows (idx + 1) rows ([] @ [row_section idx a b])"
      using Cons.IH [of "idx + 1" "[] @ [row_section idx a b]"] by simp
    finally show ?thesis using True r by simp
  next
    case False
    with r Cons.IH [of "idx + 1" acc] show ?thesis by simp
  qed
qed

lemma parse_rows_append:
  "parse_rows idx (rows1 @ rows2) acc = parse_rows (idx + length rows1) rows2 (parse_rows idx rows1 acc)"
proof (induction rows1 arbitrary: idx acc)
  case Nil
  show ?case by simp
next
  case (Cons r rows1)
  obtain a b where r: "r = (a, b)" by (cases r)
  show ?case using Cons.IH r by simp
qed

lemma descriptor_of_row:
  assumes "truthy col_a"
  shows "descriptor_of pre col_a col_b post = row_section (Suc (length pre)) col_a col_b"
proof -
  let ?out = "parse_excel_config pre"
  let ?d = "row_section (Suc (length pre)) col_a col_b"
  have "parse_excel_config (pre @ (col_a, col_b) # post) =
          parse_rows (1 + length pre) ((col_a, col_b) # post) ?out"
    by (simp add: parse_excel_config_def parse_rows_append)
  also have "\<dots> = parse_rows (Suc (Suc (length pre))) post (?out @ [?d])"
    using assms by simp
  also have "\<dots> = (?out @ [?d]) @ parse_rows (Suc (Suc (length pre))) post []"
    by (rule parse_rows_acc)
  finally show ?thesis
    by (simp add: descriptor_of_def nth_append)
qed

lemma parse_rows_enumerate:
  "parse_rows idx rows [] =
     map (\<lambda>(n, col_a, col_b). row_section n col_a col_b)
       (filter (\<lambda>(n, col_a, col_b). truthy col_a) (enumerate idx rows))"
proof (induction rows arbitrary: idx)
  case Nil
  show ?case by simp
next
  case (Cons r rows)
  obtain a b where r: "r = (a, b)" by (cases r)
  show ?case
  proof (cases "truthy a")
    case True
    have "parse_rows idx (r # rows) [] = [row_section idx a b] @ parse_rows (Suc idx) rows []"
      using True r parse_rows_acc [of "Suc idx" rows "[row_section idx a b]"] by simp
    with True r Cons.IH [of "Suc idx"] show ?thesis by simp
  next
    case False
    with r Cons.IH [of "Suc idx"] show ?thesis by simp
  qed
qed

lemma strip_whitespace_only: "list_all isspace t \<Longrightarrow> strip t = []"
proof -
  assume "list_all isspace t"
  then have "dropWhile isspace t = []"
    by (simp add: list_all_iff dropWhile_eq_Nil_conv)
  then show ?thesis
    by (simp only: strip_def lstrip_def rstrip_def rev.simps dropWhile.simps)
qed

lemma row_section_base_number:
  "map_of (row_section n col_a col_b) ''base_number'' =
     Some (MAIN_CHAPTER_NUMBER @ [0x2E] @ str_nat n)"
  by (simp add: row_section_def Let_def split: prod.split)

text \<open>
  Where \<open>str_find\<close> stops: at the occurrence before which no other occurrence starts. An
  occurrence that starts inside \<open>b\<close> lies within \<open>b @ butlast sub\<close>.
\<close>

lemma str_find_at:
  assumes s: "s = b @ sub @ a"
    and first: "\<And>j. j < length b \<Longrightarrow> take (length sub) (drop j s) \<noteq> sub"
  shows "str_find sub s = Some (length b)"
proof (cases "str_find sub s")
  case None
  from str_find_None [OF None, of b a] s show ?thesis by simp
next
  case (Some i)
  have at_b: "take (length sub) (drop (length b) s) = sub"
    using s by simp
  have "\<not> i < length b"
    using first [of i] str_find_take [OF Some] by auto
  moreover have "\<not> length b < i"
    using str_find_first [OF Some, of "length b"] at_b by auto
  ultimately show ?thesis using Some by simp
qed

lemma no_early_occurrence:
  assumes ne: "sub \<noteq> []"
    and none: "\<And>p q. b @ butlast sub \<noteq> p @ sub @ q"
    and j: "j < length b"
  shows "take (length sub) (drop j (b @ sub @ a)) \<noteq> sub"
proof
  assume occ: "take (length sub) (drop j (b @ sub @ a)) = sub"
  let ?x = "b @ butlast sub"
  have split: "b @ sub @ a = ?x @ (last sub # a)"
    using ne by simp
  have "0 < length sub" using ne by simp
  then have len: "j + length sub \<le> length ?x"
    using j by simp
  then have "take (length sub) (drop j (?x @ (last sub # a))) = take (length sub) (drop j ?x)"
    by simp
  with occ split have here: "take (length sub) (drop j ?x) = sub"
    by simp
  have "take j ?x @ take (length sub) (drop j ?x) @ drop (length sub) (drop j ?x) = ?x"
    by (simp only: append_take_drop_id)
  then have "take j ?x @ sub @ drop (length sub) (drop j ?x) = ?x"
    by (simp only: here)
  then have "?x = take j ?x @ sub @ drop (length sub) (drop j ?x)"
    by (rule sym)
  with none show False by blast
qed

lemma split_once_at_first:
  assumes ne: "sub \<noteq> []"
    and s: "s = b @ sub @ a"
    and none: "\<And>p q. b @ butlast sub \<noteq> p @ sub @ q"
  shows "str_contains sub s \<and> split_once s sub = [b, a]"
proof -
  have "str_find sub s = Some (length b)"
  proof (rule str_find_at [OF s])
    fix j assume "j < length b"
    with no_early_occurrence [OF ne none, of j a] s
    show "take (length sub) (drop j s) \<noteq> sub" by simp
  qed
  then show ?thesis
    using s by (simp add: str_contains_def split_once_def)
qed

lemma not_contains_iff: "\<not> str_contains sub s \<longleftrightarrow> (\<forall>p q. s \<noteq> p @ sub @ q)"
proof
  assume "\<not> str_contains sub s"
  then have "str_find sub s = None" by (simp add: str_contains_def)
  then show "\<forall>p q. s \<noteq> p @ sub @ q" using str_find_None by blast
next
  assume none: "\<forall>p q. s \<noteq> p @ sub @ q"
  show "\<not> str_contains sub s"
  proof
    assume "str_contains sub s"
    then obtain i where "str_find sub s = Some i" by (auto simp: str_contains_def)
    from str_find_split [OF this] none show False by blast
  qed
qed

section \<open>Facts about the assembler\<close>

lemma set_last_alignment_snoc:
  "set_last_alignment a (doc @ [Para c al]) = doc @ [Para c (Some a)]"
  by (simp add: set_last_alignment_def)

lemma set_last_alignment_snoc2:
  "set_last_alignment a (doc @ [p, Para c al]) = doc @ [p, Para c (Some a)]"
  by (simp add: set_last_alignment_def butlast_append)

lemma add_picture_with_uniform_width_appends:
  "add_picture_with_uniform_width env images doc idx =
     doc @ stray_paragraphs env images idx @ [slot_block env images idx]"
  by (simp add: add_picture_with_uniform_width_def slot_block_def stray_paragraphs_def
      add_picture_def add_paragraph_with_font_def set_last_alignment_snoc
      set_last_alignment_snoc2 picture_error_def picture_missing_def split: option.split)

lemma stray_paragraphs_Nil [simp]: "stray_paragraphs env [] idx = []"
  by (simp add: stray_paragraphs_def)

lemma centered_stray_paragraphs [simp]: "filter centered (stray_paragraphs env images idx) = []"
  by (simp add: stray_paragraphs_def centered_def)

lemma is_picture_stray_paragraphs [simp]:
  "filter is_picture (stray_paragraphs env images idx) = []"
  by (simp add: stray_paragraphs_def is_picture_def)

lemma centered_Para [simp]: "centered (Para c al) = (al = Some CENTER)"
  by (simp add: centered_def)

lemma centered_slot_block [simp]: "centered (slot_block env images idx)"
  by (simp add: slot_block_def split: option.split)

lemmas append_section_unfold =
  append_section_def Let_def add_page_break_def add_heading_with_font_def
  add_paragraph_with_font_def add_picture_with_uniform_width_appends

lemma list_images_None: "list_images env f = None \<longleftrightarrow> listdir env f = None"
  by (simp add: list_images_def)

lemma append_section_append:
  "append_section env doc si f = doc @ append_section env [] si f"
  by (cases "list_images env f") (simp_all add: append_section_unfold)

lemma append_section_missing_folder:
  assumes "listdir env f = None"
  shows "append_section env doc si f =
           doc @ [Para (Text (folder_warning (dict_get si ''folder'' default_folder))) None] @
           append_section (env\<lparr>listdir := \<lambda>p. Some []\<rparr>) [] si f"
proof -
  have 1: "list_images env f = None"
    using assms by (simp add: list_images_def)
  have 2: "list_images (env\<lparr>listdir := \<lambda>p. Some []\<rparr>) f = Some []"
    by (simp add: list_images_def)
  show ?thesis
    by (simp add: append_section_unfold 1 2 folder_warning_def slot_block_def)
qed

lemma centered_append_section:
  "filter centered (append_section env [] si f) =
     map (slot_block env (section_images env f)) [0, 1, 2, 3, 4, 5, 6, 7, 8, 9, 10]"
  by (cases "list_images env f") (simp_all add: append_section_unfold section_images_def)

lemma upt_11: "[0..<11] = [0, 1, 2, 3, 4, 5, 6, 7, 8, 9, 10]"
  by (simp add: upt_rec)

lemma appended_slots_append_section:
  "appended_slots doc (append_section env doc si f) =
     map (slot_block env (section_images env f)) [0..<11]"
  unfolding upt_11 appended_slots_def
  by (subst append_section_append) (simp add: centered_append_section)

lemma length_append_section_missing:
  assumes "listdir env f = None"
  shows "length (append_section env [] si f) = 37"
proof -
  have "list_images env f = None"
    using assms by (simp add: list_images_None)
  then show ?thesis by (simp add: append_section_unfold)
qed

lemma filter_centered_append_section:
  "filter centered (append_section env doc si f) =
     filter centered doc @ map (slot_block env (section_images env f)) [0..<11]"
  unfolding upt_11
  by (subst append_section_append) (simp add: centered_append_section)

lemma row_section_has_folder: "\<exists>y. map_of (row_section n col_a col_b) ''folder'' = Some y"
  by (simp add: row_section_def Let_def split: prod.split)

lemma parsed_have_folder:
  "list_all (\<lambda>s. map_of s ''folder'' \<noteq> None) (parse_excel_config rows)"
  by (auto simp: parse_excel_config_def parse_rows_enumerate list_all_iff row_section_has_folder)

lemma process_sections_slots:
  "list_all (\<lambda>s. map_of s ''folder'' \<noteq> None) sections \<Longrightarrow>
     \<exists>delta. process_sections env doc sections = Inr (doc @ delta) \<and>
             length (filter centered delta) = 11 * length sections"
proof (induction sections arbitrary: doc)
  case Nil
  show ?case by simp
next
  case (Cons s sections)
  from Cons.prems obtain folder where folder: "map_of s ''folder'' = Some folder"
    by auto
  let ?one = "append_section env [] s (section_dir env folder)"
  from Cons.prems have "list_all (\<lambda>s. map_of s ''folder'' \<noteq> None) sections"
    by simp
  from Cons.IH [OF this, of "doc @ ?one"]
  obtain delta where rest: "process_sections env (doc @ ?one) sections = Inr ((doc @ ?one) @ delta)"
    and slots: "length (filter centered delta) = 11 * length sections"
    by blast
  have "append_section env doc s (section_dir env folder) = doc @ ?one"
    by (rule append_section_append)
  with folder rest have "process_sections env doc (s # sections) = Inr (doc @ (?one @ delta))"
    by simp
  moreover have "length (filter centered (?one @ delta)) = 11 * length (s # sections)"
    using slots by (simp add: centered_append_section)
  ultimately show ?case by blast
qed

lemma append_section_skeleton:
  "append_section env [] si f =
     (if listdir env f = None
      then [Para (Text (folder_warning (dict_get si ''folder'' default_folder))) None] else []) @
     concat (map (\<lambda>i. skeleton si ! i @ stray_paragraphs env (section_images env f) i @
                        [slot_block env (section_images env f) i])
               [0..<11])"
proof (cases "list_images env f")
  case None
  then have "listdir env f = None" by (simp add: list_images_None)
  with None show ?thesis
    unfolding upt_11
    by (simp add: append_section_unfold section_images_def skeleton_def folder_warning_def)
next
  case (Some images)
  then obtain names where "listdir env f = Some names"
    by (auto simp: list_images_def)
  with Some show ?thesis
    unfolding upt_11
    by (simp add: append_section_unfold section_images_def skeleton_def)
qed

lemma parse_empty_iff:
  "parse_excel_config rows = [] \<longleftrightarrow> list_all (\<lambda>(col_a, col_b). \<not> truthy col_a) rows"
proof -
  have "parse_rows idx rows [] = [] \<longleftrightarrow> list_all (\<lambda>(col_a, col_b). \<not> truthy col_a) rows" for idx
  proof (induction rows arbitrary: idx)
    case Nil
    show ?case by simp
  next
    case (Cons r rows)
    obtain a b where r: "r = (a, b)" by (cases r)
    show ?case
    proof (cases "truthy a")
      case True
      have "parse_rows idx (r # rows) [] = [row_section idx a b] @ parse_rows (idx + 1) rows []"
        using True r parse_rows_acc [of "idx + 1" rows "[row_section idx a b]"] by simp
      with True r show ?thesis by simp
    next
      case False
      with r Cons.IH [of "idx + 1"] show ?thesis by simp
    qed
  qed
  then show ?thesis by (simp add: parse_excel_config_def)
qed

lemmas eval_list_images =
  section_images_def list_images_def endswith_any_def endswith_def str_lower_def
  lower_char_def ext_png_def ext_jpg_def ext_jpeg_def os_path_join_def

lemma section_images_mixed_env:
  "section_images mixed_env [0x64] =
     [[0x64, 0x2F, 0x61, 0x2E, 0x70, 0x6E, 0x67], [0x64, 0x2F, 0x62, 0x2E, 0x50, 0x4E, 0x47]]"
  by (simp add: mixed_env_def eval_list_images)

lemma section_images_corrupt_env:
  "section_images corrupt_env [0x64] = [[0x64, 0x2F, 0x61, 0x2E, 0x70, 0x6E, 0x67]]"
  by (simp add: corrupt_env_def eval_list_images)

lemma is_picture_simps:
  "\<not> is_picture (Para PageBreak al)"
  "\<not> is_picture (Para (Heading txt level) al)"
  "\<not> is_picture (Para (Text txt) al)"
  "is_picture (Para (Picture path width) al)"
  by (simp_all add: is_picture_def)

lemma slot_block_no_picture:
  "add_picture_error env = (\<lambda>p. Some e) \<Longrightarrow> \<not> is_picture (slot_block env images i)"
  by (simp add: slot_block_def is_picture_simps)

lemma no_picture_when_all_fail:
  assumes "add_picture_error env = (\<lambda>p. Some e)"
  shows "filter is_picture (append_section env [] si f) = []"
  by (cases "list_images env f")
    (simp_all add: append_section_unfold slot_block_no_picture [OF assms] is_picture_simps)


section \<open>Facts about the comma removal\<close>

lemma endswith_snoc [simp]: "endswith (xs @ [c]) [k] \<longleftrightarrow> c = k"
  by (simp add: endswith_def)

lemma endswith_Nil [simp]: "\<not> endswith [] (k # ks)"
  by (simp add: endswith_def)

lemma endswith_snoc2 [simp]: "endswith (xs @ [d, c]) [k, l] \<longleftrightarrow> d = k \<and> c = l"
  by (simp add: endswith_def)

lemma endswith_single2 [simp]: "\<not> endswith [c] [k, l]"
  by (simp add: endswith_def)

lemma removesuffix_chain:
  "removesuffix (removesuffix x ascii_comma) fullwidth_comma = trailing_commas_removed x"
proof (cases x rule: rev_cases)
  case Nil
  then show ?thesis
    by (simp add: removesuffix_def trailing_commas_removed_def ascii_comma_def fullwidth_comma_def)
next
  case (snoc ys c)
  show ?thesis
  proof (cases ys rule: rev_cases)
    case Nil
    with snoc show ?thesis
      by (simp add: removesuffix_def trailing_commas_removed_def ascii_comma_def
          fullwidth_comma_def)
  next
    case (snoc zs d)
    with \<open>x = ys @ [c]\<close> have x: "x = zs @ [d, c]" by simp
    have e1: "endswith (zs @ [a, b]) [k] \<longleftrightarrow> b = k" for a b k :: nat
      using endswith_snoc [of "zs @ [a]" b k] by simp
    show ?thesis
      unfolding x
      by (simp add: removesuffix_def trailing_commas_removed_def ascii_comma_def
          fullwidth_comma_def e1 butlast_append)
  qed
qed

section \<open>The claims\<close>

text \<open>
  C1, as the code has it. One call of \<open>append_section\<close> appends content for exactly
  eleven image slots, for the slot indices 0 to 10 in the fixed skeleton order: what it
  appends is, after the folder warning if the folder is missing, the fixed paragraphs of
  the skeleton before slot 0, the content of slot 0, the fixed paragraphs before slot 1,
  the content of slot 1, and so on to slot 10. The content of a slot ends with exactly one
  center-aligned paragraph, and these eleven are the only center-aligned paragraphs
  appended, however many images the folder holds.
  For a slot index \<open>i\<close> within the bounds of the ImageSet that paragraph is the \<open>i\<close>-th
  image at the uniform width, \<^emph>\<open>unless its insertion fails\<close>: then it is a warning that
  names slot number \<open>i + 1\<close> and the error, and it stands after the empty paragraph the
  failed insertion has left. For a slot index out of bounds it is a warning that names
  slot number \<open>i + 1\<close>.

  The claim as stated puts an image in every slot within bounds. The \<^verbatim>\<open>try\<close> around
  \<^verbatim>\<open>doc.add_picture\<close> makes this false for an image that cannot be inserted: with the one
  file \<^verbatim>\<open>a.png\<close> in the folder and an insertion that raises, slot 0 is within bounds and
  holds a warning, not a picture.
\<close>

theorem eleven_slots_per_section:
  "length (appended_slots doc (append_section env doc si f)) = 11 \<and>
   (\<forall>i<11.
      appended_slots doc (append_section env doc si f) ! i =
        (if i < length (section_images env f) then
           (case add_picture_error env (section_images env f ! i) of
              None \<Rightarrow> Para (Picture (section_images env f ! i) uniform_width) (Some CENTER)
            | Some e \<Rightarrow> Para (Text (picture_error (i + 1) e)) (Some CENTER))
         else Para (Text (picture_missing (i + 1))) (Some CENTER))) \<and>
   drop (length doc) (append_section env doc si f) =
     (if listdir env f = None
      then [Para (Text (folder_warning (dict_get si ''folder'' default_folder))) None] else []) @
     concat (map (\<lambda>i. skeleton si ! i @ stray_paragraphs env (section_images env f) i @
                        [appended_slots doc (append_section env doc si f) ! i])
               [0..<11])"
proof -
  have slots: "appended_slots doc (append_section env doc si f) =
                 map (slot_block env (section_images env f)) [0..<11]"
    by (rule appended_slots_append_section)
  have delta: "drop (length doc) (append_section env doc si f) = append_section env [] si f"
    by (subst append_section_append) simp
  have count: "length (appended_slots doc (append_section env doc si f)) = 11"
    unfolding slots by simp
  have each: "appended_slots doc (append_section env doc si f) ! i =
        (if i < length (section_images env f) then
           (case add_picture_error env (section_images env f ! i) of
              None \<Rightarrow> Para (Picture (section_images env f ! i) uniform_width) (Some CENTER)
            | Some e \<Rightarrow> Para (Text (picture_error (i + 1) e)) (Some CENTER))
         else Para (Text (picture_missing (i + 1))) (Some CENTER))"
    if "i < 11" for i
    unfolding slots using that by (simp add: slot_block_def)
  have nth: "appended_slots doc (append_section env doc si f) ! i =
               slot_block env (section_images env f) i" if "i < 11" for i
    unfolding slots using that by simp
  have "map (\<lambda>i. skeleton si ! i @ stray_paragraphs env (section_images env f) i @
                  [slot_block env (section_images env f) i]) [0..<11] =
        map (\<lambda>i. skeleton si ! i @ stray_paragraphs env (section_images env f) i @
                  [appended_slots doc (append_section env doc si f) ! i]) [0..<11]"
    by (rule map_cong) (simp_all add: nth)
  then have places: "drop (length doc) (append_section env doc si f) =
     (if listdir env f = None
      then [Para (Text (folder_warning (dict_get si ''folder'' default_folder))) None] else []) @
     concat (map (\<lambda>i. skeleton si ! i @ stray_paragraphs env (section_images env f) i @
                        [appended_slots doc (append_section env doc si f) ! i])
               [0..<11])"
    unfolding delta by (simp only: append_section_skeleton)
  from count each places show ?thesis by blast
qed

theorem eleven_slots_per_section_witness:
  "length (appended_slots [] (append_section mixed_env [] [] [0x64])) = 11 \<and>
   section_images mixed_env [0x64] =
     [[0x64, 0x2F, 0x61, 0x2E, 0x70, 0x6E, 0x67], [0x64, 0x2F, 0x62, 0x2E, 0x50, 0x4E, 0x47]] \<and>
   appended_slots [] (append_section mixed_env [] [] [0x64]) ! 0 =
     Para (Picture [0x64, 0x2F, 0x61, 0x2E, 0x70, 0x6E, 0x67] 6472800) (Some CENTER) \<and>
   appended_slots [] (append_section mixed_env [] [] [0x64]) ! 1 =
     Para (Text (picture_error_pre @ [0x32] @ picture_error_mid @ [0x62, 0x61, 0x64] @
                 picture_error_post)) (Some CENTER) \<and>
   appended_slots [] (append_section mixed_env [] [] [0x64]) ! 10 =
     Para (Text (picture_missing_pre @ [0x31, 0x31] @ picture_missing_post)) (Some CENTER) \<and>
   length (append_section mixed_env [] [] [0x64]) = 37 \<and>
   append_section mixed_env [] [] [0x64] ! 3 =
     Para (Picture [0x64, 0x2F, 0x61, 0x2E, 0x70, 0x6E, 0x67] 6472800) (Some CENTER) \<and>
   append_section mixed_env [] [] [0x64] ! 7 = Para (Text []) None \<and>
   append_section mixed_env [] [] [0x64] ! 8 =
     Para (Text (picture_error_pre @ [0x32] @ picture_error_mid @ [0x62, 0x61, 0x64] @
                 picture_error_post)) (Some CENTER)"
proof -
  note imgs = section_images_mixed_env
  from eleven_slots_per_section [of "[]" mixed_env "[]" "[0x64]"]
  have count: "length (appended_slots [] (append_section mixed_env [] [] [0x64])) = 11"
    and places: "drop (length ([] :: document)) (append_section mixed_env [] [] [0x64]) =
     (if listdir mixed_env [0x64] = None
      then [Para (Text (folder_warning (dict_get [] ''folder'' default_folder))) None] else []) @
     concat (map (\<lambda>i. skeleton [] ! i @ stray_paragraphs mixed_env (section_images mixed_env [0x64]) i @
                        [appended_slots [] (append_section mixed_env [] [] [0x64]) ! i])
               [0..<11])"
    and each: "\<And>i. i < 11 \<Longrightarrow>
      appended_slots [] (append_section mixed_env [] [] [0x64]) ! i =
        (if i < length (section_images mixed_env [0x64]) then
           (case add_picture_error mixed_env (section_images mixed_env [0x64] ! i) of
              None \<Rightarrow> Para (Picture (section_images mixed_env [0x64] ! i) uniform_width) (Some CENTER)
            | Some e \<Rightarrow> Para (Text (picture_error (i + 1) e)) (Some CENTER))
         else Para (Text (picture_missing (i + 1))) (Some CENTER))"
    by blast+
  have s0: "appended_slots [] (append_section mixed_env [] [] [0x64]) ! 0 =
     Para (Picture [0x64, 0x2F, 0x61, 0x2E, 0x70, 0x6E, 0x67] 6472800) (Some CENTER)"
    using each [of 0] unfolding imgs by (simp add: mixed_env_def uniform_width_def)
  have s1: "appended_slots [] (append_section mixed_env [] [] [0x64]) ! 1 =
     Para (Text (picture_error_pre @ [0x32] @ picture_error_mid @ [0x62, 0x61, 0x64] @
                 picture_error_post)) (Some CENTER)"
    using each [of 1] unfolding imgs
    by (simp add: mixed_env_def picture_error_def str_nat.simps)
  have s10: "appended_slots [] (append_section mixed_env [] [] [0x64]) ! 10 =
     Para (Text (picture_missing_pre @ [0x31, 0x31] @ picture_missing_post)) (Some CENTER)"
    using each [of 10] unfolding imgs
    by (simp add: picture_missing_def str_nat.simps)
  have stray: "stray_paragraphs mixed_env
        [[0x64, 0x2F, 0x61, 0x2E, 0x70, 0x6E, 0x67], [0x64, 0x2F, 0x62, 0x2E, 0x50, 0x4E, 0x47]] i =
      (if i = 1 then [Para (Text []) None] else [])" for i
    by (cases "i = 0") (auto simp: stray_paragraphs_def mixed_env_def nth_Cons')
  have whole: "append_section mixed_env [] [] [0x64] =
     concat (map (\<lambda>i. skeleton [] ! i @ (if i = 1 then [Para (Text []) None] else []) @
                        [appended_slots [] (append_section mixed_env [] [] [0x64]) ! i])
               [0, 1, 2, 3, 4, 5, 6, 7, 8, 9, 10])"
    using places unfolding imgs stray upt_11 by (simp add: mixed_env_def)
  have len: "length (append_section mixed_env [] [] [0x64]) = 37"
    by (subst whole) (simp add: skeleton_def Let_def)
  have p3: "append_section mixed_env [] [] [0x64] ! 3 =
     Para (Picture [0x64, 0x2F, 0x61, 0x2E, 0x70, 0x6E, 0x67] 6472800) (Some CENTER)"
    by (subst whole) (simp add: skeleton_def Let_def s0)
  have p7: "append_section mixed_env [] [] [0x64] ! 7 = Para (Text []) None"
    by (subst whole) (simp add: skeleton_def Let_def)
  have p8: "append_section mixed_env [] [] [0x64] ! 8 =
     Para (Text (picture_error_pre @ [0x32] @ picture_error_mid @ [0x62, 0x61, 0x64] @
                 picture_error_post)) (Some CENTER)"
    using s1 by (subst whole) (simp add: skeleton_def Let_def)
  from count imgs s0 s1 s10 len p3 p7 p8 show ?thesis by blast
qed

theorem image_in_bounds_not_inserted_counterexample:
  "section_images corrupt_env [0x64] = [[0x64, 0x2F, 0x61, 0x2E, 0x70, 0x6E, 0x67]] \<and>
   0 < length (section_images corrupt_env [0x64]) \<and>
   appended_slots [] (append_section corrupt_env [] [] [0x64]) ! 0 =
     Para (Text (picture_error 1 [0x62, 0x61, 0x64])) (Some CENTER) \<and>
   appended_slots [] (append_section corrupt_env [] [] [0x64]) ! 0 \<noteq>
     Para (Picture (section_images corrupt_env [0x64] ! 0) uniform_width) (Some CENTER) \<and>
   filter is_picture (append_section corrupt_env [] [] [0x64]) = []"
proof -
  note imgs = section_images_corrupt_env
  have slots: "appended_slots [] (append_section corrupt_env [] [] [0x64]) =
      map (slot_block corrupt_env (section_images corrupt_env [0x64])) [0..<11]"
    by (rule appended_slots_append_section)
  have s0: "appended_slots [] (append_section corrupt_env [] [] [0x64]) ! 0 =
     Para (Text (picture_error 1 [0x62, 0x61, 0x64])) (Some CENTER)"
    unfolding slots imgs upt_11 by (simp add: slot_block_def corrupt_env_def)
  have "add_picture_error corrupt_env = (\<lambda>p. Some [0x62, 0x61, 0x64])"
    by (simp add: corrupt_env_def)
  then have none: "filter is_picture (append_section corrupt_env [] [] [0x64]) = []"
    by (rule no_picture_when_all_fail)
  from imgs s0 none show ?thesis by simp
qed

text \<open>
  C2. The parser produces exactly one descriptor per row whose column A is not empty, in
  the order of the rows, and none for a row whose column A is empty or absent: its result
  is the list of the descriptors \<open>row_section n col_a col_b\<close> of the numbered rows
  \<open>(n, col_a, col_b)\<close> with a non-empty column A, so there are as many descriptors as such
  rows. This holds for every spreadsheet, with or without such a row.
\<close>

theorem one_descriptor_per_titled_row:
  "parse_excel_config rows =
     map (\<lambda>(n, col_a, col_b). row_section n col_a col_b)
       (filter (\<lambda>(n, col_a, col_b). col_a \<noteq> None \<and> col_a \<noteq> Some []) (enumerate 1 rows)) \<and>
   length (parse_excel_config rows) =
     length (filter (\<lambda>(col_a, col_b). col_a \<noteq> None \<and> col_a \<noteq> Some []) rows)"
proof -
  have t: "truthy = (\<lambda>c. c \<noteq> None \<and> c \<noteq> Some [])"
    by (auto simp: truthy_def fun_eq_iff split: option.split)
  have eq: "parse_excel_config rows =
     map (\<lambda>(n, col_a, col_b). row_section n col_a col_b)
       (filter (\<lambda>(n, col_a, col_b). col_a \<noteq> None \<and> col_a \<noteq> Some []) (enumerate 1 rows))"
    by (simp add: parse_excel_config_def parse_rows_enumerate t)
  have "length (filter (\<lambda>(n, col_a, col_b). col_a \<noteq> None \<and> col_a \<noteq> Some []) (enumerate k rows)) =
        length (filter (\<lambda>(col_a, col_b). col_a \<noteq> None \<and> col_a \<noteq> Some []) rows)" for k
    by (induction rows arbitrary: k) auto
  with eq show ?thesis by simp
qed

theorem one_descriptor_per_titled_row_witness:
  "parse_excel_config [(Some [0x41], None), (None, Some [0x78]), (Some [], None), (Some [0x42], None)] =
     [row_section 1 (Some [0x41]) None, row_section 4 (Some [0x42]) None] \<and>
   length (parse_excel_config [(Some [0x41], None), (None, Some [0x78]), (Some [], None), (Some [0x42], None)]) = 2"
proof -
  have e: "enumerate 1 [r1, r2, r3, r4] = [(1, r1), (2, r2), (3, r3), (4, r4)]"
    for r1 r2 r3 r4 :: "cell \<times> cell"
    by (simp add: enumerate_eq_zip upt_rec)
  show ?thesis
    using one_descriptor_per_titled_row
      [of "[(Some [0x41], None), (None, Some [0x78]), (Some [], None), (Some [0x42], None)]"]
    unfolding e by simp
qed

text \<open>
  C3, as the code has it. For every non-empty title cell \<open>s\<close>, with \<open>strip s\<close> its
  trimmed text:
  \<^item> if the marker \<open>delimiter\<close> occurs in it, and \<open>before\<close> and \<open>after\<close> are the text before
    and after its first occurrence (no occurrence lies within \<open>before\<close> followed by all
    but the last character of the marker), then the title is \<open>before\<close> with the
    surrounding whitespace stripped, then the trailing commas removed as
    \<open>trailing_commas_removed\<close> says (the ending full-width comma, ASCII comma goes whole;
    otherwise one ending comma of either form goes), then the whitespace stripped again,
    and \<open>folder\<close> is \<open>after\<close> trimmed;
  \<^item> if the marker does not occur, the title is the trimmed text itself and \<open>folder\<close> is
    the empty string;
  \<^item> the cell \<^verbatim>\<open>Foo\<close> + marker + \<^verbatim>\<open>BAR\<close> gives the title \<^verbatim>\<open>Foo\<close> and the folder \<^verbatim>\<open>BAR\<close>.

  The claim as stated strips "a trailing ASCII or full-width comma". The parser calls
  \<^verbatim>\<open>removesuffix(',')\<close> and then \<^verbatim>\<open>removesuffix\<close> of the full-width comma, each once. A
  title text that ends with a full-width comma followed by an ASCII comma loses both, one
  more than a trailing comma; one that ends with an ASCII comma followed by a full-width
  comma loses the full-width one only and still ends with a comma.
\<close>

theorem title_and_folder_from_marker:
  assumes "s \<noteq> []"
  shows "(strip s = before @ delimiter @ after \<and>
            (\<forall>p q. before @ butlast delimiter \<noteq> p @ delimiter @ q) \<longrightarrow>
          map_of (descriptor_of pre (Some s) col_b post) ''title'' =
            Some (strip (trailing_commas_removed (strip before))) \<and>
          map_of (descriptor_of pre (Some s) col_b post) ''folder'' = Some (strip after)) \<and>
         ((\<forall>p q. strip s \<noteq> p @ delimiter @ q) \<longrightarrow>
          map_of (descriptor_of pre (Some s) col_b post) ''title'' = Some (strip s) \<and>
          map_of (descriptor_of pre (Some s) col_b post) ''folder'' = Some []) \<and>
         map_of (descriptor_of pre (Some ([0x46, 0x6F, 0x6F] @ delimiter @ [0x42, 0x41, 0x52])) col_b post)
           ''title'' = Some [0x46, 0x6F, 0x6F] \<and>
         map_of (descriptor_of pre (Some ([0x46, 0x6F, 0x6F] @ delimiter @ [0x42, 0x41, 0x52])) col_b post)
           ''folder'' = Some [0x42, 0x41, 0x52]"
proof -
  have ne: "delimiter \<noteq> []" by (simp add: delimiter_def)
  have t: "truthy (Some s)" using assms by (simp add: truthy_def)
  have found: "map_of (descriptor_of pre (Some s) col_b post) ''title'' =
            Some (strip (trailing_commas_removed (strip before))) \<and>
          map_of (descriptor_of pre (Some s) col_b post) ''folder'' = Some (strip after)"
    if eq: "strip s = before @ delimiter @ after"
      and none: "\<forall>p q. before @ butlast delimiter \<noteq> p @ delimiter @ q"
  proof -
    from none have "\<And>p q. before @ butlast delimiter \<noteq> p @ delimiter @ q" by blast
    from split_once_at_first [OF ne eq this]
    have "str_contains delimiter (strip s)" and "split_once (strip s) delimiter = [before, after]"
      by simp_all
    then show ?thesis
      by (simp add: descriptor_of_row [OF t] row_section_def Let_def py_str_def
          removesuffix_chain)
  qed
  have absent: "map_of (descriptor_of pre (Some s) col_b post) ''title'' = Some (strip s) \<and>
          map_of (descriptor_of pre (Some s) col_b post) ''folder'' = Some []"
    if "\<forall>p q. strip s \<noteq> p @ delimiter @ q"
  proof -
    from that have "\<not> str_contains delimiter (strip s)" by (simp add: not_contains_iff)
    then show ?thesis
      by (simp add: descriptor_of_row [OF t] row_section_def Let_def py_str_def)
  qed
  have foo: "truthy (Some ([0x46, 0x6F, 0x6F] @ delimiter @ [0x42, 0x41, 0x52]))"
    by (simp add: truthy_def)
  have example:
    "map_of (descriptor_of pre (Some ([0x46, 0x6F, 0x6F] @ delimiter @ [0x42, 0x41, 0x52])) col_b post)
       ''title'' = Some [0x46, 0x6F, 0x6F] \<and>
     map_of (descriptor_of pre (Some ([0x46, 0x6F, 0x6F] @ delimiter @ [0x42, 0x41, 0x52])) col_b post)
       ''folder'' = Some [0x42, 0x41, 0x52]"
    unfolding descriptor_of_row [OF foo]
    by (simp add: row_section_def Let_def py_str_def delimiter_def
        strip_def lstrip_def rstrip_def isspace_def str_contains_def split_once_def
        removesuffix_def endswith_def ascii_comma_def fullwidth_comma_def)
  from found absent example show ?thesis by blast
qed

theorem title_and_folder_from_marker_witness:
  "[0x20, 0x46, 0x6F, 0x6F, 0xFF0C, 0x20, 0x529F, 0x80FD, 0x4EE3, 0x78BC, 0x3A, 0x20, 0x30, 0x30, 0x31, 0x20]
     \<noteq> ([] :: ustr) \<and>
   strip [0x20, 0x46, 0x6F, 0x6F, 0xFF0C, 0x20, 0x529F, 0x80FD, 0x4EE3, 0x78BC, 0x3A, 0x20, 0x30, 0x30, 0x31, 0x20]
     = [0x46, 0x6F, 0x6F, 0xFF0C, 0x20] @ delimiter @ [0x20, 0x30, 0x30, 0x31] \<and>
   map_of (descriptor_of []
      (Some [0x20, 0x46, 0x6F, 0x6F, 0xFF0C, 0x20, 0x529F, 0x80FD, 0x4EE3, 0x78BC, 0x3A, 0x20, 0x30, 0x30, 0x31, 0x20])
      None []) ''title'' = Some [0x46, 0x6F, 0x6F] \<and>
   map_of (descriptor_of []
      (Some [0x20, 0x46, 0x6F, 0x6F, 0xFF0C, 0x20, 0x529F, 0x80FD, 0x4EE3, 0x78BC, 0x3A, 0x20, 0x30, 0x30, 0x31, 0x20])
      None []) ''folder'' = Some [0x30, 0x30, 0x31] \<and>
   map_of (descriptor_of [] (Some [0x20, 0x41, 0x2C]) None []) ''title'' = Some [0x41, 0x2C] \<and>
   map_of (descriptor_of [] (Some [0x20, 0x41, 0x2C]) None []) ''folder'' = Some [] \<and>
   [0x46, 0x6F, 0x6F, 0xFF0C, 0x2C, 0x529F, 0x80FD, 0x4EE3, 0x78BC, 0x3A, 0x58] \<noteq> ([] :: ustr) \<and>
   strip [0x46, 0x6F, 0x6F, 0xFF0C, 0x2C, 0x529F, 0x80FD, 0x4EE3, 0x78BC, 0x3A, 0x58] =
     [0x46, 0x6F, 0x6F, 0xFF0C, 0x2C] @ delimiter @ [0x58] \<and>
   map_of (descriptor_of []
      (Some [0x46, 0x6F, 0x6F, 0xFF0C, 0x2C, 0x529F, 0x80FD, 0x4EE3, 0x78BC, 0x3A, 0x58]) None [])
      ''title'' = Some [0x46, 0x6F, 0x6F] \<and>
   map_of (descriptor_of []
      (Some [0x46, 0x6F, 0x6F, 0xFF0C, 0x2C, 0x529F, 0x80FD, 0x4EE3, 0x78BC, 0x3A, 0x58]) None [])
      ''folder'' = Some [0x58]"
proof -
  let ?s2 = "[0x46, 0x6F, 0x6F, 0xFF0C, 0x2C, 0x529F, 0x80FD, 0x4EE3, 0x78BC, 0x3A, 0x58] :: ustr"
  let ?b2 = "[0x46, 0x6F, 0x6F, 0xFF0C, 0x2C] :: ustr"
  have ne2: "?s2 \<noteq> []" by simp
  have eq2: "strip ?s2 = ?b2 @ delimiter @ [0x58]"
    by (simp add: strip_def lstrip_def rstrip_def isspace_def delimiter_def)
  have "\<not> str_contains delimiter (?b2 @ butlast delimiter)"
    by (simp add: str_contains_def delimiter_def)
  then have first2: "\<forall>p q. ?b2 @ butlast delimiter \<noteq> p @ delimiter @ q"
    unfolding not_contains_iff .
  have title2: "strip (trailing_commas_removed (strip ?b2)) = [0x46, 0x6F, 0x6F]"
    by (simp add: strip_def lstrip_def rstrip_def isspace_def trailing_commas_removed_def
        endswith_def ascii_comma_def fullwidth_comma_def)
  have folder2: "strip [0x58] = [0x58]"
    by (simp add: strip_def lstrip_def rstrip_def isspace_def)
  from title_and_folder_from_marker [OF ne2, of ?b2 "[0x58]" "[]" None "[]"] eq2 first2
  have "map_of (descriptor_of [] (Some ?s2) None []) ''title'' =
          Some (strip (trailing_commas_removed (strip ?b2))) \<and>
        map_of (descriptor_of [] (Some ?s2) None []) ''folder'' = Some (strip [0x58])"
    by blast
  then have both: "map_of (descriptor_of [] (Some ?s2) None []) ''title'' = Some [0x46, 0x6F, 0x6F] \<and>
        map_of (descriptor_of [] (Some ?s2) None []) ''folder'' = Some [0x58]"
    by (simp only: title2 folder2)
  let ?s = "[0x20, 0x46, 0x6F, 0x6F, 0xFF0C, 0x20, 0x529F, 0x80FD, 0x4EE3, 0x78BC, 0x3A, 0x20, 0x30, 0x30, 0x31, 0x20] :: ustr"
  let ?b = "[0x46, 0x6F, 0x6F, 0xFF0C, 0x20] :: ustr"
  let ?a = "[0x20, 0x30, 0x30, 0x31] :: ustr"
  let ?plain = "[0x20, 0x41, 0x2C] :: ustr"
  have ne: "?s \<noteq> []" by simp
  have eq: "strip ?s = ?b @ delimiter @ ?a"
    by (simp add: strip_def lstrip_def rstrip_def isspace_def delimiter_def)
  have "\<not> str_contains delimiter (?b @ butlast delimiter)"
    by (simp add: str_contains_def delimiter_def)
  then have first: "\<forall>p q. ?b @ butlast delimiter \<noteq> p @ delimiter @ q"
    unfolding not_contains_iff .
  have title: "strip (trailing_commas_removed (strip ?b)) = [0x46, 0x6F, 0x6F]"
    by (simp add: strip_def lstrip_def rstrip_def isspace_def trailing_commas_removed_def
        endswith_def ascii_comma_def fullwidth_comma_def)
  have folder: "strip ?a = [0x30, 0x30, 0x31]"
    by (simp add: strip_def lstrip_def rstrip_def isspace_def)
  have ne': "?plain \<noteq> []" by simp
  have plain: "strip ?plain = [0x41, 0x2C]"
    by (simp add: strip_def lstrip_def rstrip_def isspace_def)
  have "\<not> str_contains delimiter (strip ?plain)"
    unfolding plain by (simp add: str_contains_def delimiter_def)
  then have absent: "\<forall>p q. strip ?plain \<noteq> p @ delimiter @ q"
    unfolding not_contains_iff .
  from title_and_folder_from_marker [OF ne, of ?b ?a "[]" None "[]"] eq first
  have "map_of (descriptor_of [] (Some ?s) None []) ''title'' =
          Some (strip (trailing_commas_removed (strip ?b))) \<and>
        map_of (descriptor_of [] (Some ?s) None []) ''folder'' = Some (strip ?a)"
    by blast
  then have marked: "map_of (descriptor_of [] (Some ?s) None []) ''title'' = Some [0x46, 0x6F, 0x6F] \<and>
        map_of (descriptor_of [] (Some ?s) None []) ''folder'' = Some [0x30, 0x30, 0x31]"
    by (simp only: title folder)
  from title_and_folder_from_marker [OF ne', of "[]" "[]" "[]" None "[]"] absent
  have "map_of (descriptor_of [] (Some ?plain) None []) ''title'' = Some (strip ?plain) \<and>
        map_of (descriptor_of [] (Some ?plain) None []) ''folder'' = Some []"
    by blast
  then have unmarked: "map_of (descriptor_of [] (Some ?plain) None []) ''title'' = Some [0x41, 0x2C] \<and>
        map_of (descriptor_of [] (Some ?plain) None []) ''folder'' = Some []"
    by (simp only: plain)
  from ne eq marked unmarked ne2 eq2 both show ?thesis by blast
qed

theorem both_commas_removed_counterexample:
  "map_of (descriptor_of [] (Some ([0x46, 0x6F, 0x6F, 0xFF0C, 0x2C] @ delimiter @ [0x58])) None [])
     ''title'' = Some [0x46, 0x6F, 0x6F] \<and>
   strip (one_trailing_comma_stripped (strip [0x46, 0x6F, 0x6F, 0xFF0C, 0x2C])) =
     [0x46, 0x6F, 0x6F, 0xFF0C] \<and>
   map_of (descriptor_of [] (Some ([0x46, 0x6F, 0x6F, 0xFF0C, 0x2C] @ delimiter @ [0x58])) None [])
     ''title'' \<noteq>
     Some (strip (one_trailing_comma_stripped (strip [0x46, 0x6F, 0x6F, 0xFF0C, 0x2C]))) \<and>
   map_of (descriptor_of [] (Some ([0x46, 0x6F, 0x6F, 0x2C, 0xFF0C] @ delimiter @ [0x58])) None [])
     ''title'' = Some [0x46, 0x6F, 0x6F, 0x2C]"
proof -
  have t1: "truthy (Some ([0x46, 0x6F, 0x6F, 0xFF0C, 0x2C] @ delimiter @ [0x58]))"
    by (simp add: truthy_def)
  have t2: "truthy (Some ([0x46, 0x6F, 0x6F, 0x2C, 0xFF0C] @ delimiter @ [0x58]))"
    by (simp add: truthy_def)
  have code1:
    "map_of (descriptor_of [] (Some ([0x46, 0x6F, 0x6F, 0xFF0C, 0x2C] @ delimiter @ [0x58])) None [])
       ''title'' = Some [0x46, 0x6F, 0x6F]"
    unfolding descriptor_of_row [OF t1]
    by (simp add: row_section_def Let_def py_str_def delimiter_def
        strip_def lstrip_def rstrip_def isspace_def str_contains_def split_once_def
        removesuffix_def endswith_def ascii_comma_def fullwidth_comma_def)
  have code2:
    "map_of (descriptor_of [] (Some ([0x46, 0x6F, 0x6F, 0x2C, 0xFF0C] @ delimiter @ [0x58])) None [])
       ''title'' = Some [0x46, 0x6F, 0x6F, 0x2C]"
    unfolding descriptor_of_row [OF t2]
    by (simp add: row_section_def Let_def py_str_def delimiter_def
        strip_def lstrip_def rstrip_def isspace_def str_contains_def split_once_def
        removesuffix_def endswith_def ascii_comma_def fullwidth_comma_def)
  have claimed: "strip (one_trailing_comma_stripped (strip [0x46, 0x6F, 0x6F, 0xFF0C, 0x2C])) =
     [0x46, 0x6F, 0x6F, 0xFF0C]"
    by (simp add: strip_def lstrip_def rstrip_def isspace_def one_trailing_comma_stripped_def
        endswith_def ascii_comma_def fullwidth_comma_def)
  from code1 code2 claimed show ?thesis by simp
qed

text \<open>
  C4, as the code has it. The number after the period in \<open>base_number\<close> is the 1-based
  position of the descriptor's row among all data rows, the skipped ones counted: the
  loop numbers the rows with \<^verbatim>\<open>enumerate(rows, 1)\<close> and \<^verbatim>\<open>continue\<close> does not hold the
  counter back. Across a parse result the numbers are strictly increasing, none exceeds
  the number of rows, and they are \<open>1, 2, \<dots>, n\<close> when no row is skipped.

  The claim as stated (the number is the position among the emitted descriptors, so the
  numbers have no gaps) fails as soon as a row with an empty title stands above a row
  with a title: for the two rows (empty, empty) and (\<^verbatim>\<open>A\<close>, empty) the only descriptor
  is the first of the output and carries \<^verbatim>\<open>1.2\<close>.
\<close>

theorem base_number_counts_all_rows:
  "map (\<lambda>d. map_of d ''base_number'') (parse_excel_config rows) =
     map (\<lambda>n. Some (MAIN_CHAPTER_NUMBER @ [0x2E] @ str_nat n)) (emitted_row_numbers rows) \<and>
   sorted_wrt (<) (emitted_row_numbers rows) \<and>
   list_all (\<lambda>n. 1 \<le> n \<and> n \<le> length rows) (emitted_row_numbers rows) \<and>
   (list_all (\<lambda>(col_a, col_b). truthy col_a) rows \<longrightarrow>
      emitted_row_numbers rows = [1..<Suc (length rows)])"
proof -
  let ?P = "\<lambda>(n, col_a, col_b). truthy col_a"
  have "map (\<lambda>d. map_of d ''base_number'')
          (map (\<lambda>(n, col_a, col_b). row_section n col_a col_b) xs) =
        map (\<lambda>n. Some (MAIN_CHAPTER_NUMBER @ [0x2E] @ str_nat n)) (map fst xs)"
    for xs :: "(nat \<times> cell \<times> cell) list"
    by (induction xs) (auto simp: row_section_base_number)
  then have numbers: "map (\<lambda>d. map_of d ''base_number'') (parse_excel_config rows) =
     map (\<lambda>n. Some (MAIN_CHAPTER_NUMBER @ [0x2E] @ str_nat n)) (emitted_row_numbers rows)"
    by (simp only: parse_excel_config_def parse_rows_enumerate emitted_row_numbers_def)
  have "sorted_wrt (<) (map fst (enumerate 1 rows))"
    by (simp only: map_fst_enumerate sorted_wrt_upt)
  then have "sorted_wrt (\<lambda>x y. fst x < fst y) (filter ?P (enumerate 1 rows))"
    unfolding sorted_wrt_map by (rule sorted_wrt_filter)
  then have increasing: "sorted_wrt (<) (emitted_row_numbers rows)"
    by (simp only: emitted_row_numbers_def sorted_wrt_map)
  have "set (map fst (filter ?P (enumerate 1 rows))) \<subseteq> set (map fst (enumerate 1 rows))"
    by (auto simp del: map_fst_enumerate)
  then have "set (emitted_row_numbers rows) \<subseteq> set [1..<1 + length rows]"
    by (simp only: emitted_row_numbers_def map_fst_enumerate)
  then have bounds: "list_all (\<lambda>n. 1 \<le> n \<and> n \<le> length rows) (emitted_row_numbers rows)"
    by (auto simp: list_all_iff)
  have gapless: "emitted_row_numbers rows = [1..<Suc (length rows)]"
    if "list_all (\<lambda>(col_a, col_b). truthy col_a) rows"
  proof -
    from that have "filter ?P (enumerate 1 rows) = enumerate 1 rows"
      by (auto simp: list_all_iff filter_id_conv enumerate_eq_zip dest: set_zip_rightD)
    then show ?thesis by (simp add: emitted_row_numbers_def)
  qed
  from numbers increasing bounds gapless show ?thesis by blast
qed

theorem base_number_counts_all_rows_witness:
  "map (\<lambda>d. map_of d ''base_number'')
     (parse_excel_config [(Some [0x41], None), (None, None), (Some [0x42], None)]) =
     [Some [0x31, 0x2E, 0x31], Some [0x31, 0x2E, 0x33]] \<and>
   emitted_row_numbers [(Some [0x41], None), (None, None), (Some [0x42], None)] = [1, 3] \<and>
   list_all (\<lambda>(col_a, col_b). truthy col_a) [(Some [0x41], None), (Some [0x42], None :: cell)] \<and>
   emitted_row_numbers [(Some [0x41], None), (Some [0x42], None)] = [1, 2]"
proof -
  have e: "emitted_row_numbers [(Some [0x41], None), (None, None), (Some [0x42], None)] = [1, 3]"
    by (simp add: emitted_row_numbers_def enumerate_eq_zip upt_rec truthy_def)
  have all: "list_all (\<lambda>(col_a, col_b). truthy col_a) [(Some [0x41], None), (Some [0x42], None :: cell)]"
    by (simp add: truthy_def)
  have u: "[1..<Suc (length [(Some [0x41], None), (Some [0x42], None) :: cell \<times> cell])] = [1, 2]"
    by (simp add: upt_rec)
  from base_number_counts_all_rows [of "[(Some [0x41], None), (None, None), (Some [0x42], None)]"]
  have "map (\<lambda>d. map_of d ''base_number'')
     (parse_excel_config [(Some [0x41], None), (None, None), (Some [0x42], None)]) =
     map (\<lambda>n. Some (MAIN_CHAPTER_NUMBER @ [0x2E] @ str_nat n)) [1, 3]"
    unfolding e by blast
  then have m: "map (\<lambda>d. map_of d ''base_number'')
     (parse_excel_config [(Some [0x41], None), (None, None), (Some [0x42], None)]) =
     [Some [0x31, 0x2E, 0x31], Some [0x31, 0x2E, 0x33]]"
    by (simp add: MAIN_CHAPTER_NUMBER_def str_nat.simps)
  from base_number_counts_all_rows [of "[(Some [0x41], None), (Some [0x42], None)]"] all
  have "emitted_row_numbers [(Some [0x41], None), (Some [0x42], None)] =
          [1..<Suc (length [(Some [0x41], None), (Some [0x42], None) :: cell \<times> cell])]"
    by blast
  then have g: "emitted_row_numbers [(Some [0x41], None), (Some [0x42], None)] = [1, 2]"
    unfolding u .
  from m e all g show ?thesis by blast
qed

theorem base_number_gap_counterexample:
  "length (parse_excel_config [(None, None), (Some [0x41], None)]) = 1 \<and>
   map_of (parse_excel_config [(None, None), (Some [0x41], None)] ! 0) ''base_number'' =
     Some (MAIN_CHAPTER_NUMBER @ [0x2E] @ str_nat 2) \<and>
   map_of (parse_excel_config [(None, None), (Some [0x41], None)] ! 0) ''base_number'' \<noteq>
     Some (MAIN_CHAPTER_NUMBER @ [0x2E] @ str_nat 1)"
  by (simp add: parse_excel_config_def truthy_def row_section_base_number str_nat.simps)

text \<open>
  C5. Neither a missing image folder nor an image that cannot be inserted aborts the
  assembly.
  \<^item> If listing the folder fails because it does not exist, the call appends a warning
    paragraph that names the descriptor's folder identifier, works with the empty
    ImageSet, and goes on to append the full section: after the warning comes exactly
    what an existing, empty folder gives.
  \<^item> If inserting the image of a slot fails, the failure is caught and the slot gets a
    center-aligned warning paragraph that names the slot number and the error; it follows
    the empty paragraph that the failed insertion has left in the document.
  \<^item> Whatever folders are missing and whatever insertions fail, the current section
    gets all its eleven slots, and the loop over the descriptors of a parse result ends
    without an exception with eleven slots for each of them, the later ones included.
\<close>

theorem recoverable_failures_do_not_abort:
  "(listdir env f = None \<longrightarrow>
      section_images env f = [] \<and>
      append_section env doc si f =
        doc @ [Para (Text (folder_warning (dict_get si ''folder'' default_folder))) None] @
        append_section (env\<lparr>listdir := \<lambda>p. Some []\<rparr>) [] si f) \<and>
   (i < length images \<and> add_picture_error env (images ! i) = Some e \<longrightarrow>
      add_picture_with_uniform_width env images doc i =
        doc @ [Para (Text []) None, Para (Text (picture_error (i + 1) e)) (Some CENTER)]) \<and>
   length (appended_slots doc (append_section env doc si f)) = 11 \<and>
   (\<exists>delta. process_sections env doc (parse_excel_config rows) = Inr (doc @ delta) \<and>
            length (filter centered delta) = 11 * length (parse_excel_config rows))"
proof -
  have folder: "section_images env f = [] \<and>
      append_section env doc si f =
        doc @ [Para (Text (folder_warning (dict_get si ''folder'' default_folder))) None] @
        append_section (env\<lparr>listdir := \<lambda>p. Some []\<rparr>) [] si f"
    if "listdir env f = None"
    using that append_section_missing_folder [OF that]
    by (simp add: section_images_def list_images_def)
  have image: "add_picture_with_uniform_width env images doc i =
        doc @ [Para (Text []) None, Para (Text (picture_error (i + 1) e)) (Some CENTER)]"
    if "i < length images \<and> add_picture_error env (images ! i) = Some e"
    using that
    by (simp add: add_picture_with_uniform_width_appends slot_block_def stray_paragraphs_def)
  have current: "length (appended_slots doc (append_section env doc si f)) = 11"
    by (simp add: appended_slots_append_section)
  have later: "\<exists>delta. process_sections env doc (parse_excel_config rows) = Inr (doc @ delta) \<and>
            length (filter centered delta) = 11 * length (parse_excel_config rows)"
    by (rule process_sections_slots [OF parsed_have_folder])
  from folder image current later show ?thesis by blast
qed

theorem recoverable_failures_do_not_abort_witness:
  "listdir missing_env [0x64] = None \<and>
   append_section missing_env [] [(''folder'', [0x64])] [0x64] =
     [Para (Text (folder_warning_pre @ [0x64] @ folder_warning_post)) None] @
     append_section (missing_env\<lparr>listdir := \<lambda>p. Some []\<rparr>) [] [(''folder'', [0x64])] [0x64] \<and>
   length (append_section missing_env [] [(''folder'', [0x64])] [0x64]) = 37 \<and>
   1 < length (section_images mixed_env [0x64]) \<and>
   add_picture_error mixed_env (section_images mixed_env [0x64] ! 1) = Some [0x62, 0x61, 0x64] \<and>
   add_picture_with_uniform_width mixed_env (section_images mixed_env [0x64]) [] 1 =
     [Para (Text []) None,
      Para (Text (picture_error_pre @ [0x32] @ picture_error_mid @ [0x62, 0x61, 0x64] @
                  picture_error_post)) (Some CENTER)] \<and>
   (\<exists>delta. process_sections missing_env []
              (parse_excel_config [(Some [0x41], None), (Some [0x42], None)]) = Inr delta \<and>
            length (filter centered delta) = 22)"
proof -
  let ?si = "[(''folder'', [0x64])] :: section_info"
  let ?rows = "[(Some [0x41], None), (Some [0x42], None)] :: (cell \<times> cell) list"
  have missing: "listdir missing_env [0x64] = None"
    by (simp add: missing_env_def)
  have bounds: "1 < length (section_images mixed_env [0x64])"
    by (simp add: section_images_mixed_env)
  have fails: "add_picture_error mixed_env (section_images mixed_env [0x64] ! 1) = Some [0x62, 0x61, 0x64]"
    unfolding section_images_mixed_env by (simp add: mixed_env_def)
  have two: "length (parse_excel_config ?rows) = 2"
    by (simp add: parse_excel_config_def truthy_def)
  from recoverable_failures_do_not_abort
    [where env = missing_env and f = "[0x64]" and doc = "[]" and si = ?si and rows = ?rows]
    missing
  have a: "append_section missing_env [] ?si [0x64] =
        [] @ [Para (Text (folder_warning (dict_get ?si ''folder'' default_folder))) None] @
        append_section (missing_env\<lparr>listdir := \<lambda>p. Some []\<rparr>) [] ?si [0x64]"
    and d: "\<exists>delta. process_sections missing_env [] (parse_excel_config ?rows) = Inr ([] @ delta) \<and>
            length (filter centered delta) = 11 * length (parse_excel_config ?rows)"
    by blast+
  from a have a': "append_section missing_env [] ?si [0x64] =
     [Para (Text (folder_warning_pre @ [0x64] @ folder_warning_post)) None] @
     append_section (missing_env\<lparr>listdir := \<lambda>p. Some []\<rparr>) [] ?si [0x64]"
    by (simp add: folder_warning_def dict_get_def)
  have len: "length (append_section missing_env [] ?si [0x64]) = 37"
    by (rule length_append_section_missing [OF missing])
  from d two have d': "\<exists>delta. process_sections missing_env [] (parse_excel_config ?rows) = Inr delta \<and>
            length (filter centered delta) = 22"
    by simp
  from recoverable_failures_do_not_abort
    [where env = mixed_env and images = "section_images mixed_env [0x64]" and i = 1
       and e = "[0x62, 0x61, 0x64]" and doc = "[]"]
    bounds fails
  have "add_picture_with_uniform_width mixed_env (section_images mixed_env [0x64]) [] 1 =
        [] @ [Para (Text []) None,
              Para (Text (picture_error (1 + 1) [0x62, 0x61, 0x64])) (Some CENTER)]"
    by blast
  then have b: "add_picture_with_uniform_width mixed_env (section_images mixed_env [0x64]) [] 1 =
     [Para (Text []) None,
      Para (Text (picture_error_pre @ [0x32] @ picture_error_mid @ [0x62, 0x61, 0x64] @
                  picture_error_post)) (Some CENTER)]"
    by (simp add: picture_error_def str_nat.simps)
  from missing a' len bounds fails b d' show ?thesis by blast
qed

text \<open>
  C6. A request whose spreadsheet yields no descriptor (no data row has a non-empty
  title cell) is rejected: \<open>upload_and_process\<close> raises the \<^verbatim>\<open>HTTPException\<close> with status
  400 and hands no document to \<^verbatim>\<open>doc.save\<close>. This is the only check on the content of
  the configuration: whenever the parse result is not empty the handler assembles a
  document and returns its response.
\<close>

theorem empty_config_is_rejected:
  "(parse_excel_config (config_rows up) = [] \<longrightarrow>
      upload_and_process env sid up = Inl (HTTPException 400 msg_no_rows)) \<and>
   (parse_excel_config (config_rows up) \<noteq> [] \<longrightarrow>
      (\<exists>doc. upload_and_process env sid up =
         Inr (doc,
           [(''message'', msg_done),
            (''output_filename'', processed_prefix @ main_docx_filename up),
            (''download_filename'', sid @ [0x2F] @ processed_prefix @ main_docx_filename up)]))) \<and>
   (parse_excel_config (config_rows up) = [] \<longleftrightarrow>
      list_all (\<lambda>(col_a, col_b). \<not> truthy col_a) (config_rows up))"
proof -
  obtain delta where
    "process_sections env (main_docx up) (parse_excel_config (config_rows up)) =
       Inr (main_docx up @ delta)"
    using process_sections_slots [OF parsed_have_folder] by blast
  then have "(parse_excel_config (config_rows up) = [] \<longrightarrow>
      upload_and_process env sid up = Inl (HTTPException 400 msg_no_rows)) \<and>
   (parse_excel_config (config_rows up) \<noteq> [] \<longrightarrow>
      (\<exists>doc. upload_and_process env sid up =
         Inr (doc,
           [(''message'', msg_done),
            (''output_filename'', processed_prefix @ main_docx_filename up),
            (''download_filename'', sid @ [0x2F] @ processed_prefix @ main_docx_filename up)])))"
    by (simp add: upload_and_process_def Let_def)
  with parse_empty_iff [of "config_rows up"] show ?thesis by blast
qed

theorem empty_config_is_rejected_witness:
  "parse_excel_config (config_rows
      \<lparr>main_docx_filename = [0x74], main_docx = [], config_rows = [(None, Some [0x78]), (Some [], None)]\<rparr>) = [] \<and>
   upload_and_process missing_env [0x73]
      \<lparr>main_docx_filename = [0x74], main_docx = [], config_rows = [(None, Some [0x78]), (Some [], None)]\<rparr> =
     Inl (HTTPException 400 msg_no_rows) \<and>
   parse_excel_config (config_rows
      \<lparr>main_docx_filename = [0x74], main_docx = [], config_rows = [(Some [0x41], None)]\<rparr>) \<noteq> [] \<and>
   (\<exists>doc. upload_and_process missing_env [0x73]
      \<lparr>main_docx_filename = [0x74], main_docx = [], config_rows = [(Some [0x41], None)]\<rparr> =
     Inr (doc,
       [(''message'', msg_done),
        (''output_filename'', processed_prefix @ [0x74]),
        (''download_filename'', [0x73, 0x2F] @ processed_prefix @ [0x74])]))"
proof -
  let ?none = "\<lparr>main_docx_filename = [0x74], main_docx = [],
                 config_rows = [(None, Some [0x78]), (Some [], None)]\<rparr> :: upload"
  let ?one = "\<lparr>main_docx_filename = [0x74], main_docx = [],
                config_rows = [(Some [0x41], None)]\<rparr> :: upload"
  have e: "parse_excel_config (config_rows ?none) = []"
    by (simp add: parse_excel_config_def truthy_def)
  have n: "parse_excel_config (config_rows ?one) \<noteq> []"
    by (simp add: parse_excel_config_def truthy_def)
  from empty_config_is_rejected [of ?none missing_env "[0x73]"] e
  have r: "upload_and_process missing_env [0x73] ?none = Inl (HTTPException 400 msg_no_rows)"
    by blast
  from empty_config_is_rejected [of ?one missing_env "[0x73]"] n
  have "\<exists>doc. upload_and_process missing_env [0x73] ?one =
     Inr (doc,
       [(''message'', msg_done),
        (''output_filename'', processed_prefix @ main_docx_filename ?one),
        (''download_filename'', [0x73] @ [0x2F] @ processed_prefix @ main_docx_filename ?one)])"
    by blast
  then have a: "\<exists>doc. upload_and_process missing_env [0x73] ?one =
     Inr (doc,
       [(''message'', msg_done),
        (''output_filename'', processed_prefix @ [0x74]),
        (''download_filename'', [0x73, 0x2F] @ processed_prefix @ [0x74])])"
    by simp
  from e r n a show ?thesis by blast
qed

text \<open>
  C7. For every row whose title cell is not empty, the \<open>query_condition\<close> of its
  descriptor is the text of column B with the whitespace at both ends removed, and it is
  the sentinel \<open>not_provided\<close> when column B is empty (no value, or the empty string).
\<close>

theorem query_condition_trimmed_or_sentinel:
  assumes "truthy col_a"
  shows "map_of (descriptor_of pre col_a col_b post) ''query_condition'' =
           Some (case col_b of
                   None \<Rightarrow> not_provided
                 | Some t \<Rightarrow> if t = [] then not_provided else strip t)"
  using assms
  by (simp add: descriptor_of_row row_section_def Let_def truthy_def py_str_def
      split: option.split prod.split)

theorem query_condition_trimmed_or_sentinel_witness:
  "truthy (Some [0x41]) \<and>
   map_of (descriptor_of [(None, None)] (Some [0x41]) (Some [0x20, 0x49, 0x44, 0x20, 0x3E, 0x20, 0x35, 0x9]) [])
      ''query_condition'' = Some [0x49, 0x44, 0x20, 0x3E, 0x20, 0x35] \<and>
   map_of (descriptor_of [(None, None)] (Some [0x41]) None []) ''query_condition''
      = Some [0xFF08, 0x672A, 0x63D0, 0x4F9B, 0xFF09] \<and>
   map_of (descriptor_of [(None, None)] (Some [0x41]) (Some []) []) ''query_condition''
      = Some [0xFF08, 0x672A, 0x63D0, 0x4F9B, 0xFF09]"
proof -
  have a: "truthy (Some [0x41])" by (simp add: truthy_def)
  show ?thesis
    using a
      query_condition_trimmed_or_sentinel [OF a, of "[(None, None)]" "Some [0x20, 0x49, 0x44, 0x20, 0x3E, 0x20, 0x35, 0x9]" "[]"]
      query_condition_trimmed_or_sentinel [OF a, of "[(None, None)]" None "[]"]
      query_condition_trimmed_or_sentinel [OF a, of "[(None, None)]" "Some []" "[]"]
    by (simp add: not_provided_def strip_def lstrip_def rstrip_def isspace_def)
qed

text \<open>
  C8. \<open>append_section\<close> only appends. For every document, descriptor and folder the
  result starts with the document as it was, and what follows (the delta) is the same
  whatever the document: it is what the call appends to the empty document. So a second
  call with the same descriptor and folder appends the same delta again, and the length
  after two calls is the original length plus twice the length of the delta.
\<close>

theorem append_section_strictly_additive:
  "take (length doc) (append_section env doc si f) = doc \<and>
   drop (length doc) (append_section env doc si f) = append_section env [] si f \<and>
   append_section env (append_section env doc si f) si f =
     doc @ drop (length doc) (append_section env doc si f) @
           drop (length doc) (append_section env doc si f) \<and>
   length (append_section env (append_section env doc si f) si f) =
     length doc + 2 * length (drop (length doc) (append_section env doc si f))"
proof -
  let ?delta = "append_section env [] si f"
  have once: "append_section env doc si f = doc @ ?delta"
    by (rule append_section_append)
  have twice: "append_section env (doc @ ?delta) si f = (doc @ ?delta) @ ?delta"
    by (rule append_section_append)
  show ?thesis
    unfolding once twice by simp
qed

theorem append_section_strictly_additive_witness:
  "append_section \<lparr>listdir = \<lambda>p. None, add_picture_error = \<lambda>p. None, section_dir = \<lambda>p. p\<rparr>
     (append_section \<lparr>listdir = \<lambda>p. None, add_picture_error = \<lambda>p. None, section_dir = \<lambda>p. p\<rparr>
        [Para (Text [0x41]) None] [] [0x64]) [] [0x64] =
   [Para (Text [0x41]) None] @
     append_section \<lparr>listdir = \<lambda>p. None, add_picture_error = \<lambda>p. None, section_dir = \<lambda>p. p\<rparr>
       [] [] [0x64] @
     append_section \<lparr>listdir = \<lambda>p. None, add_picture_error = \<lambda>p. None, section_dir = \<lambda>p. p\<rparr>
       [] [] [0x64] \<and>
   length (append_section \<lparr>listdir = \<lambda>p. None, add_picture_error = \<lambda>p. None, section_dir = \<lambda>p. p\<rparr>
     (append_section \<lparr>listdir = \<lambda>p. None, add_picture_error = \<lambda>p. None, section_dir = \<lambda>p. p\<rparr>
        [Para (Text [0x41]) None] [] [0x64]) [] [0x64]) = 75"
proof -
  let ?env = "\<lparr>listdir = \<lambda>p. None, add_picture_error = \<lambda>p. None, section_dir = \<lambda>p. p\<rparr> :: env"
  let ?doc = "[Para (Text [0x41]) None]"
  have len: "length (append_section ?env [] [] [0x64]) = 37"
    by (rule length_append_section_missing) simp
  from append_section_strictly_additive [of ?doc ?env "[]" "[0x64]"]
  have "drop (length ?doc) (append_section ?env ?doc [] [0x64]) = append_section ?env [] [] [0x64]"
    and "append_section ?env (append_section ?env ?doc [] [0x64]) [] [0x64] =
           ?doc @ drop (length ?doc) (append_section ?env ?doc [] [0x64]) @
                  drop (length ?doc) (append_section ?env ?doc [] [0x64])"
    by blast+
  then have two: "append_section ?env (append_section ?env ?doc [] [0x64]) [] [0x64] =
           ?doc @ append_section ?env [] [] [0x64] @ append_section ?env [] [] [0x64]"
    by simp
  then have "length (append_section ?env (append_section ?env ?doc [] [0x64]) [] [0x64]) = 75"
    by (simp add: len)
  with two show ?thesis by blast
qed

text \<open>
  C9. When the image folder does not exist, the folder-missing warning is the first
  paragraph the call appends, ahead of the section's own page break and level-2 heading:
  it stands right after the content the document had, on the page that ends the
  preceding section, and the new section's page break and heading follow it.
\<close>

theorem folder_warning_precedes_section:
  assumes "listdir env f = None"
  shows "take 3 (drop (length doc) (append_section env doc si f)) =
           [Para (Text (folder_warning (dict_get si ''folder'' default_folder))) None,
            Para PageBreak None,
            Para (Heading (dict_get si ''title'' default_title @ heading_mid @
                           dict_get si ''folder'' default_folder) 2) None]"
proof -
  have "list_images env f = None"
    using assms by (simp add: list_images_def)
  then have "take 3 (append_section env [] si f) =
           [Para (Text (folder_warning (dict_get si ''folder'' default_folder))) None,
            Para PageBreak None,
            Para (Heading (dict_get si ''title'' default_title @ heading_mid @
                           dict_get si ''folder'' default_folder) 2) None]"
    by (simp add: append_section_unfold folder_warning_def)
  then show ?thesis
    by (subst append_section_append) simp
qed

theorem folder_warning_precedes_section_witness:
  "listdir \<lparr>listdir = \<lambda>p. None, add_picture_error = \<lambda>p. None, section_dir = \<lambda>p. p\<rparr> [0x64] = None \<and>
   take 3 (drop (length [Para (Text [0x41]) None])
     (append_section \<lparr>listdir = \<lambda>p. None, add_picture_error = \<lambda>p. None, section_dir = \<lambda>p. p\<rparr>
        [Para (Text [0x41]) None] [(''folder'', [0x64]), (''title'', [0x54])] [0x64])) =
     [Para (Text (folder_warning_pre @ [0x64] @ folder_warning_post)) None,
      Para PageBreak None,
      Para (Heading ([0x54] @ heading_mid @ [0x64]) 2) None]"
proof -
  let ?env = "\<lparr>listdir = \<lambda>p. None, add_picture_error = \<lambda>p. None, section_dir = \<lambda>p. p\<rparr> :: env"
  have missing: "listdir ?env [0x64] = None" by simp
  from folder_warning_precedes_section
    [OF missing, of "[Para (Text [0x41]) None]" "[(''folder'', [0x64]), (''title'', [0x54])]"]
  show ?thesis
    by (simp add: dict_get_def folder_warning_def)
qed

text \<open>
  C10. There are inputs whose column B is not empty and holds whitespace only, and for
  each of them the \<open>query_condition\<close> is the empty string, not the sentinel: the sentinel
  stands in only for a falsy cell (no value, or the empty string), and a truthy cell gives
  its trimmed text even when trimming leaves nothing.
\<close>

theorem whitespace_only_query_condition_is_empty:
  assumes "truthy col_a" and "t \<noteq> []" and "list_all isspace t"
  shows "map_of (descriptor_of pre col_a (Some t) post) ''query_condition'' = Some [] \<and>
         map_of (descriptor_of pre col_a (Some t) post) ''query_condition'' \<noteq> Some not_provided \<and>
         map_of (descriptor_of pre col_a None post) ''query_condition'' = Some not_provided \<and>
         map_of (descriptor_of pre col_a (Some []) post) ''query_condition'' = Some not_provided"
  using assms
  by (simp add: descriptor_of_row row_section_def Let_def truthy_def py_str_def
      strip_whitespace_only not_provided_def split: prod.split)

theorem whitespace_only_query_condition_is_empty_witness:
  "truthy (Some [0x41]) \<and> [0x20, 0x3000, 0x9] \<noteq> ([] :: ustr) \<and> list_all isspace [0x20, 0x3000, 0x9] \<and>
   map_of (descriptor_of [] (Some [0x41]) (Some [0x20, 0x3000, 0x9]) []) ''query_condition'' = Some []"
proof -
  have a: "truthy (Some [0x41])" by (simp add: truthy_def)
  have b: "[0x20, 0x3000, 0x9] \<noteq> ([] :: ustr)" by simp
  have c: "list_all isspace [0x20, 0x3000, 0x9]" by (simp add: isspace_def)
  show ?thesis
    using a b c whitespace_only_query_condition_is_empty [OF a b c, of "[]" "[]"] by simp
qed

end
